theory Spec2Isabelle
  imports Complex_Main "HOL-Library.Log_Nat" "HOL-Library.Multiset"
    "HOL-Library.Char_ord" "HOL-Library.List_Lexorder"
begin

section \<open>TwinEdge Safety Lab backend: risk scorer and event store adapter\<close>

text \<open>
  The development embeds \<^verbatim>\<open>src/main.py\<close> and \<^verbatim>\<open>src/schemas.py\<close>. Python values are
  modelled as they are at run time: \<^verbatim>\<open>int\<close> is the unbounded \<open>int\<close>, \<^verbatim>\<open>float\<close> is an
  IEEE 754 binary64 number, a raised exception is the \<open>Inl\<close> branch of a sum.
\<close>

subsection \<open>Exceptions\<close>

text \<open>
  The exceptions the two source files can raise. \<open>HTTPException\<close> carries its status
  code; the \<^verbatim>\<open>detail\<close> text (\<^verbatim>\<open>str(e)\<close>) is not modelled.
\<close>

datatype error =
    ValidationError
  | OverflowError
  | ZeroDivisionError
  | TypeError
  | HTTPException nat

subsection \<open>Python floats\<close>

text \<open>
  A float is a finite binary64 value, given by the rational it denotes, an infinity or a
  NaN. The sign of zero is not modelled: \<^verbatim>\<open>assess_risk\<close> compares and adds, and none
  of these operations distinguishes \<^verbatim>\<open>-0.0\<close> from \<^verbatim>\<open>0.0\<close>.
\<close>

datatype pyfloat = Finite rat | PosInf | NegInf | NaN

text \<open>\<open>ilog2 x\<close> is the binary exponent \<open>\<lfloor>log\<^sub>2 \<bar>x\<bar>\<rfloor>\<close> of a non-zero rational.\<close>

definition ilog2 :: "rat \<Rightarrow> int" where
  "ilog2 x =
     (let k = bitlen (fst (quotient_of \<bar>x\<bar>)) - bitlen (snd (quotient_of \<bar>x\<bar>))
      in if 2 powi k \<le> \<bar>x\<bar> then k else k - 1)"

text \<open>Rounding a rational to the nearest integer, ties to the even one.\<close>

definition round_half_even :: "rat \<Rightarrow> int" where
  "round_half_even z =
     (let f = \<lfloor>z\<rfloor>; r = z - of_int f
      in if r < 1 / 2 then f
         else if 1 / 2 < r then f + 1
         else if even f then f else f + 1)"

text \<open>
  \<open>quantum x\<close> is the spacing of binary64 numbers around \<open>x\<close>: 53 significant bits,
  and the fixed spacing \<open>2\<^sup>-\<^sup>1\<^sup>0\<^sup>7\<^sup>4\<close> of the subnormal range below \<open>2\<^sup>-\<^sup>1\<^sup>0\<^sup>2\<^sup>2\<close>.
  \<open>nearest x\<close> is the multiple of the quantum nearest to \<open>x\<close> (round to nearest, ties
  to even); \<open>fl x\<close> is the float an IEEE operation with exact result \<open>x\<close> returns,
  an infinity when the rounded value leaves the binary64 range.
\<close>

definition quantum :: "rat \<Rightarrow> rat" where
  "quantum x = 2 powi (max (ilog2 x) (- 1022) - 52)"

definition nearest :: "rat \<Rightarrow> rat" where
  "nearest x = (if x = 0 then 0 else of_int (round_half_even (x / quantum x)) * quantum x)"

definition fl :: "rat \<Rightarrow> pyfloat" where
  "fl x =
     (let y = nearest x
      in if 2 ^ 1024 \<le> y then PosInf
         else if y \<le> - (2 ^ 1024) then NegInf
         else Finite y)"

text \<open>Float addition, subtraction and multiplication; Python never raises on these.\<close>

fun float_add :: "pyfloat \<Rightarrow> pyfloat \<Rightarrow> pyfloat" where
  "float_add (Finite a) (Finite b) = fl (a + b)"
| "float_add NaN _ = NaN"
| "float_add _ NaN = NaN"
| "float_add PosInf NegInf = NaN"
| "float_add NegInf PosInf = NaN"
| "float_add PosInf _ = PosInf"
| "float_add _ PosInf = PosInf"
| "float_add NegInf _ = NegInf"
| "float_add _ NegInf = NegInf"

fun float_neg :: "pyfloat \<Rightarrow> pyfloat" where
  "float_neg (Finite a) = Finite (- a)"
| "float_neg PosInf = NegInf"
| "float_neg NegInf = PosInf"
| "float_neg NaN = NaN"

definition float_sub :: "pyfloat \<Rightarrow> pyfloat \<Rightarrow> pyfloat" where
  "float_sub x y = float_add x (float_neg y)"

fun float_mul :: "pyfloat \<Rightarrow> pyfloat \<Rightarrow> pyfloat" where
  "float_mul (Finite a) (Finite b) = fl (a * b)"
| "float_mul NaN _ = NaN"
| "float_mul _ NaN = NaN"
| "float_mul PosInf (Finite b) = (if b = 0 then NaN else if 0 < b then PosInf else NegInf)"
| "float_mul NegInf (Finite b) = (if b = 0 then NaN else if 0 < b then NegInf else PosInf)"
| "float_mul (Finite a) PosInf = (if a = 0 then NaN else if 0 < a then PosInf else NegInf)"
| "float_mul (Finite a) NegInf = (if a = 0 then NaN else if 0 < a then NegInf else PosInf)"
| "float_mul PosInf PosInf = PosInf"
| "float_mul NegInf NegInf = PosInf"
| "float_mul PosInf NegInf = NegInf"
| "float_mul NegInf PosInf = NegInf"

text \<open>Comparisons: every comparison with a NaN is false.\<close>

fun float_lt :: "pyfloat \<Rightarrow> pyfloat \<Rightarrow> bool" where
  "float_lt (Finite a) (Finite b) = (a < b)"
| "float_lt NaN _ = False"
| "float_lt _ NaN = False"
| "float_lt _ NegInf = False"
| "float_lt NegInf _ = True"
| "float_lt PosInf _ = False"
| "float_lt _ PosInf = True"

definition float_gt :: "pyfloat \<Rightarrow> pyfloat \<Rightarrow> bool" where
  "float_gt x y = float_lt y x"

definition float_le :: "pyfloat \<Rightarrow> pyfloat \<Rightarrow> bool" where
  "float_le x y = (float_lt x y \<or> (x = y \<and> x \<noteq> NaN))"

definition float_ge :: "pyfloat \<Rightarrow> pyfloat \<Rightarrow> bool" where
  "float_ge x y = float_le y x"

text \<open>
  The builtins \<^verbatim>\<open>max(a, b)\<close> and \<^verbatim>\<open>min(a, b)\<close> keep the first argument unless the
  second compares strictly greater (smaller).
\<close>

definition py_max :: "pyfloat \<Rightarrow> pyfloat \<Rightarrow> pyfloat" where
  "py_max a b = (if float_gt b a then b else a)"

definition py_min :: "pyfloat \<Rightarrow> pyfloat \<Rightarrow> pyfloat" where
  "py_min a b = (if float_lt b a then b else a)"

text \<open>
  True division \<^verbatim>\<open>a / b\<close> of two ints: the correctly rounded quotient, and
  \<^verbatim>\<open>OverflowError\<close> when it is too large for a float.
\<close>

definition int_truediv :: "int \<Rightarrow> int \<Rightarrow> error + pyfloat" where
  "int_truediv a b =
     (if b = 0 then Inl ZeroDivisionError
      else case fl (of_int a / of_int b) of
             Finite q \<Rightarrow> Inr (Finite q)
           | _ \<Rightarrow> Inl OverflowError)"

text \<open>
  \<^verbatim>\<open>round(x, 1)\<close>: the exact value of \<open>x\<close> is rounded to one decimal, ties to even,
  and the decimal is converted back to the nearest float. Infinities and NaN round to
  themselves.
\<close>

fun py_round1 :: "pyfloat \<Rightarrow> pyfloat" where
  "py_round1 (Finite x) = fl (of_int (round_half_even (x * 10)) / 10)"
| "py_round1 f = f"


subsection \<open>Python values, documents and the library\<close>

text \<open>
  A \<^verbatim>\<open>datetime\<close> is kept as what ordering needs: whether it is aware of a time zone, and its
  position in microseconds (the UTC instant for an aware value, the wall-clock reading
  for a naive one).
\<close>

record datetime =
  aware :: bool
  micros :: int

text \<open>
  The values a stored document or a request body holds. A document is a \<^verbatim>\<open>dict\<close> from
  field names to values; a nested \<^verbatim>\<open>dict\<close> is kept as its list of items.
\<close>

datatype pyval =
    VNone
  | VInt int
  | VFloat pyfloat
  | VStr string
  | VDatetime datetime
  | VObjectId string
  | VDict "(string \<times> pyval) list"

type_synonym document = "string \<rightharpoonup> pyval"

text \<open>\<^verbatim>\<open>d.get(k)\<close>: the value, or \<^verbatim>\<open>None\<close> for a missing key.\<close>

definition dict_get :: "document \<Rightarrow> string \<Rightarrow> pyval" where
  "dict_get d k = (case d k of None \<Rightarrow> VNone | Some v \<Rightarrow> v)"

text \<open>
  Truth value of a value, as \<^verbatim>\<open>or\<close> tests it: \<^verbatim>\<open>None\<close>, zero, the empty string and the
  empty \<^verbatim>\<open>dict\<close> are false; every \<^verbatim>\<open>datetime\<close> and every NaN is true.
\<close>

fun truthy :: "pyval \<Rightarrow> bool" where
  "truthy VNone = False"
| "truthy (VInt i) = (i \<noteq> 0)"
| "truthy (VFloat f) = (f \<noteq> Finite 0)"
| "truthy (VStr s) = (s \<noteq> [])"
| "truthy (VDatetime d) = True"
| "truthy (VObjectId x) = True"
| "truthy (VDict kvs) = (kvs \<noteq> [])"

text \<open>
  The operator \<^verbatim>\<open><\<close> on two values. Two datetimes compare when both are naive or both
  aware, strings compare by code point, numbers compare exactly; every other pair raises
  \<^verbatim>\<open>TypeError\<close>.
\<close>

fun py_lt :: "pyval \<Rightarrow> pyval \<Rightarrow> error + bool" where
  "py_lt (VDatetime a) (VDatetime b) =
     (if aware a = aware b then Inr (micros a < micros b) else Inl TypeError)"
| "py_lt (VStr a) (VStr b) = Inr (a < b)"
| "py_lt (VInt a) (VInt b) = Inr (a < b)"
| "py_lt (VInt a) (VFloat b) = Inr (float_lt (Finite (of_int a)) b)"
| "py_lt (VFloat a) (VInt b) = Inr (float_lt a (Finite (of_int b)))"
| "py_lt (VFloat a) (VFloat b) = Inr (float_lt a b)"
| "py_lt (VObjectId a) (VObjectId b) = Inr (a < b)"
| "py_lt _ _ = Inl TypeError"

text \<open>
  Library functions the two files call and whose code is outside the repository. They
  are parameters of the model: \<open>fromisoformat\<close> is \<^verbatim>\<open>datetime.fromisoformat\<close> (\<open>None\<close>
  when it raises), and the \<open>lax\<close> functions are the conversions the model validation
  applies to an input that is not already of the type of the field (\<open>None\<close> when the
  input is rejected).
\<close>

record pylib =
  fromisoformat :: "string \<Rightarrow> datetime option"
  lax_datetime :: "pyval \<Rightarrow> datetime option"
  lax_float :: "pyval \<Rightarrow> pyfloat option"
  lax_int :: "pyval \<Rightarrow> int option"
  lax_str :: "pyval \<Rightarrow> string option"

text \<open>Validation of one field: a value of the type of the field is taken as it is.\<close>

definition validate_datetime :: "pylib \<Rightarrow> pyval \<Rightarrow> datetime option" where
  "validate_datetime lib v = (case v of VDatetime d \<Rightarrow> Some d | _ \<Rightarrow> lax_datetime lib v)"

definition validate_float :: "pylib \<Rightarrow> pyval \<Rightarrow> pyfloat option" where
  "validate_float lib v = (case v of VFloat f \<Rightarrow> Some f | _ \<Rightarrow> lax_float lib v)"

definition validate_int :: "pylib \<Rightarrow> pyval \<Rightarrow> int option" where
  "validate_int lib v = (case v of VInt i \<Rightarrow> Some i | _ \<Rightarrow> lax_int lib v)"

definition validate_str :: "pylib \<Rightarrow> pyval \<Rightarrow> string option" where
  "validate_str lib v = (case v of VStr s \<Rightarrow> Some s | _ \<Rightarrow> lax_str lib v)"

subsection \<open>The schemas\<close>

text \<open>
  The models of \<^verbatim>\<open>schemas.py\<close>, in the order of the file. Constructing a model validates
  its fields in order: a required field that is missing or invalid, or a value that
  breaks a constraint (\<^verbatim>\<open>ge=0\<close>), raises \<^verbatim>\<open>ValidationError\<close>; keys that are no field of
  the model are ignored.
\<close>

record Location =
  lat :: pyfloat
  lng :: pyfloat

record SensorEvent =
  timestamp :: datetime
  temperature_c :: pyfloat
  gas_ppm :: int
  aqi :: int
  location :: "Location option"
  "notes" :: "string option"
  source :: string

record InsightRequest =
  temperature_c :: pyfloat
  gas_ppm :: int
  aqi :: int

record InsightResponse =
  score :: pyfloat
  level :: string
  tips :: "string list"

definition new_Location :: "pylib \<Rightarrow> (string \<times> pyval) list \<Rightarrow> error + Location" where
  "new_Location lib kvs =
     (case map_of kvs ''lat'' of
        None \<Rightarrow> Inl ValidationError
      | Some a \<Rightarrow>
          (case validate_float lib a of
             None \<Rightarrow> Inl ValidationError
           | Some y \<Rightarrow>
               (case map_of kvs ''lng'' of
                  None \<Rightarrow> Inl ValidationError
                | Some b \<Rightarrow>
                    (case validate_float lib b of
                       None \<Rightarrow> Inl ValidationError
                     | Some x \<Rightarrow> Inr \<lparr>lat = y, lng = x\<rparr>))))"

text \<open>The optional fields and the default of \<^verbatim>\<open>source\<close>.\<close>

definition optional_Location :: "pylib \<Rightarrow> pyval option \<Rightarrow> error + Location option" where
  "optional_Location lib v =
     (case v of
        None \<Rightarrow> Inr None
      | Some VNone \<Rightarrow> Inr None
      | Some (VDict kvs) \<Rightarrow>
          (case new_Location lib kvs of Inl e \<Rightarrow> Inl e | Inr l \<Rightarrow> Inr (Some l))
      | Some _ \<Rightarrow> Inl ValidationError)"

definition optional_str :: "pylib \<Rightarrow> pyval option \<Rightarrow> error + string option" where
  "optional_str lib v =
     (case v of
        None \<Rightarrow> Inr None
      | Some VNone \<Rightarrow> Inr None
      | Some w \<Rightarrow>
          (case validate_str lib w of None \<Rightarrow> Inl ValidationError | Some s \<Rightarrow> Inr (Some s)))"

definition str_with_default :: "pylib \<Rightarrow> string \<Rightarrow> pyval option \<Rightarrow> error + string" where
  "str_with_default lib dflt v =
     (case v of
        None \<Rightarrow> Inr dflt
      | Some w \<Rightarrow>
          (case validate_str lib w of None \<Rightarrow> Inl ValidationError | Some s \<Rightarrow> Inr s))"

text \<open>A required field: missing or invalid raises.\<close>

definition required :: "(pyval \<Rightarrow> 'a option) \<Rightarrow> pyval option \<Rightarrow> error + 'a" where
  "required validate v =
     (case v of
        None \<Rightarrow> Inl ValidationError
      | Some w \<Rightarrow> (case validate w of None \<Rightarrow> Inl ValidationError | Some x \<Rightarrow> Inr x))"

text \<open>A required int with the constraint \<^verbatim>\<open>ge=0\<close>.\<close>

definition required_int_ge0 :: "pylib \<Rightarrow> pyval option \<Rightarrow> error + int" where
  "required_int_ge0 lib v =
     (case required (validate_int lib) v of
        Inl e \<Rightarrow> Inl e
      | Inr i \<Rightarrow> if 0 \<le> i then Inr i else Inl ValidationError)"

text \<open>\<^verbatim>\<open>SensorEvent(**d)\<close>.\<close>

definition new_SensorEvent :: "pylib \<Rightarrow> document \<Rightarrow> error + SensorEvent" where
  "new_SensorEvent lib d =
     (case required (validate_datetime lib) (d ''timestamp'') of
        Inl e \<Rightarrow> Inl e
      | Inr ts \<Rightarrow>
     (case required (validate_float lib) (d ''temperature_c'') of
        Inl e \<Rightarrow> Inl e
      | Inr t \<Rightarrow>
     (case required_int_ge0 lib (d ''gas_ppm'') of
        Inl e \<Rightarrow> Inl e
      | Inr g \<Rightarrow>
     (case required_int_ge0 lib (d ''aqi'') of
        Inl e \<Rightarrow> Inl e
      | Inr a \<Rightarrow>
     (case optional_Location lib (d ''location'') of
        Inl e \<Rightarrow> Inl e
      | Inr loc \<Rightarrow>
     (case optional_str lib (d ''notes'') of
        Inl e \<Rightarrow> Inl e
      | Inr n \<Rightarrow>
     (case str_with_default lib ''raspi'' (d ''source'') of
        Inl e \<Rightarrow> Inl e
      | Inr src \<Rightarrow>
          Inr \<lparr>SensorEvent.timestamp = ts, SensorEvent.temperature_c = t,
               SensorEvent.gas_ppm = g, SensorEvent.aqi = a,
               SensorEvent.location = loc, SensorEvent.notes = n,
               SensorEvent.source = src\<rparr>)))))))"

text \<open>\<^verbatim>\<open>InsightRequest(**d)\<close>: three required fields, no constraint on any.\<close>

definition new_InsightRequest :: "pylib \<Rightarrow> document \<Rightarrow> error + InsightRequest" where
  "new_InsightRequest lib d =
     (case required (validate_float lib) (d ''temperature_c'') of
        Inl e \<Rightarrow> Inl e
      | Inr t \<Rightarrow>
     (case required (validate_int lib) (d ''gas_ppm'') of
        Inl e \<Rightarrow> Inl e
      | Inr g \<Rightarrow>
     (case required (validate_int lib) (d ''aqi'') of
        Inl e \<Rightarrow> Inl e
      | Inr a \<Rightarrow> Inr \<lparr>temperature_c = t, gas_ppm = g, aqi = a\<rparr>)))"

text \<open>
  Constructing an \<^verbatim>\<open>InsightResponse\<close> validates \<^verbatim>\<open>score\<close> against \<^verbatim>\<open>ge=0, le=100\<close>.
\<close>

definition new_InsightResponse :: "pyfloat \<Rightarrow> string \<Rightarrow> string list \<Rightarrow> error + InsightResponse" where
  "new_InsightResponse s l ts =
     (if float_ge s (Finite 0) \<and> float_le s (Finite 100)
      then Inr \<lparr>score = s, level = l, tips = ts\<rparr>
      else Inl ValidationError)"

text \<open>
  The field dictionary of a \<^verbatim>\<open>SensorEvent\<close>, which is what a caller of the retrieval
  receives for each item.
\<close>

definition SensorEvent_fields :: "SensorEvent \<Rightarrow> document" where
  "SensorEvent_fields e =
     [''timestamp'' \<mapsto> VDatetime (SensorEvent.timestamp e),
      ''temperature_c'' \<mapsto> VFloat (SensorEvent.temperature_c e),
      ''gas_ppm'' \<mapsto> VInt (SensorEvent.gas_ppm e),
      ''aqi'' \<mapsto> VInt (SensorEvent.aqi e),
      ''location'' \<mapsto>
        (case SensorEvent.location e of
           None \<Rightarrow> VNone
         | Some l \<Rightarrow> VDict [(''lat'', VFloat (lat l)), (''lng'', VFloat (lng l))]),
      ''notes'' \<mapsto> (case SensorEvent.notes e of None \<Rightarrow> VNone | Some s \<Rightarrow> VStr s),
      ''source'' \<mapsto> VStr (SensorEvent.source e)]"

subsection \<open>The risk scorer\<close>

text \<open>The literals \<^verbatim>\<open>1.2\<close>, \<^verbatim>\<open>0.0\<close>, \<^verbatim>\<open>100.0\<close> and the int \<^verbatim>\<open>25\<close> as floats.\<close>

definition lit_1_2 :: pyfloat where
  "lit_1_2 = fl (12 / 10)"

text \<open>Lines 116 to 119: the weighted sum, accumulated from \<^verbatim>\<open>0.0\<close>.\<close>

definition raw_score :: "InsightRequest \<Rightarrow> error + pyfloat" where
  "raw_score payload =
     (let t = temperature_c payload; g = gas_ppm payload; a = aqi payload;
          s0 = Finite 0;
          s1 = float_add s0 (float_mul (py_max (Finite 0) (float_sub t (Finite 25))) lit_1_2)
      in case int_truediv g 12 of
           Inl e \<Rightarrow> Inl e
         | Inr gq \<Rightarrow>
             (let s2 = float_add s1 gq
              in (case int_truediv a 3 of
                    Inl e \<Rightarrow> Inl e
                  | Inr aq \<Rightarrow> Inr (float_add s2 aq))))"

text \<open>Line 122: the clamp.\<close>

definition clamp_score :: "pyfloat \<Rightarrow> pyfloat" where
  "clamp_score s = py_max (Finite 0) (py_min (Finite 100) s)"

text \<open>Lines 124 to 143: the level chain and the tips of each level.\<close>

definition high_risk_tips :: "string list" where
  "high_risk_tips =
     [''Evacuate non-essential personnel'',
      ''Engage ventilation and gas suppression systems'',
      ''Activate incident command protocol'']"

definition elevated_tips :: "string list" where
  "elevated_tips =
     [''Increase monitoring frequency'',
      ''Prepare PPE and standby team'',
      ''Verify sensor calibration'']"

definition normal_tips :: "string list" where
  "normal_tips =
     [''Continue routine monitoring'',
      ''Maintain clear egress routes'']"

definition level_chain :: "pyfloat \<Rightarrow> int \<Rightarrow> int \<Rightarrow> string \<times> string list" where
  "level_chain s g a =
     (if float_ge s (Finite 70) \<or> g > 800 \<or> a > 150 then (''High risk'', high_risk_tips)
      else if float_ge s (Finite 45) \<or> g > 600 \<or> a > 100 then (''Elevated'', elevated_tips)
      else (''Normal'', normal_tips))"

definition assess_risk :: "InsightRequest \<Rightarrow> error + InsightResponse" where
  "assess_risk payload =
     (case raw_score payload of
        Inl e \<Rightarrow> Inl e
      | Inr s \<Rightarrow>
          let sc = clamp_score s;
              (lv, tp) = level_chain sc (gas_ppm payload) (aqi payload)
          in new_InsightResponse (py_round1 sc) lv tp)"

subsection \<open>The scoring rule as the specification words it\<close>

text \<open>
  The specification gives the score as a closed formula, a clamp to \<open>[0, 100]\<close> and a
  rounding to one decimal. The definitions below follow its words, in the binary64
  arithmetic of its data model: \<open>spec_max0\<close> is \<open>max(0, x)\<close>, \<open>spec_quotient\<close> the
  quotient of two integers as a float, \<open>spec_sum\<close> step 1, \<open>spec_clamp\<close> step 2 and
  \<open>spec_score\<close> the three steps together. They are compared with \<open>assess_risk\<close> below.
\<close>

definition spec_max0 :: "pyfloat \<Rightarrow> pyfloat" where
  "spec_max0 x = (if float_gt x (Finite 0) then x else Finite 0)"

definition spec_quotient :: "int \<Rightarrow> int \<Rightarrow> pyfloat" where
  "spec_quotient a b = fl (of_int a / of_int b)"

definition spec_sum :: "pyfloat \<Rightarrow> int \<Rightarrow> int \<Rightarrow> pyfloat" where
  "spec_sum t g a =
     float_add
       (float_add (float_mul (spec_max0 (float_sub t (Finite 25))) lit_1_2) (spec_quotient g 12))
       (spec_quotient a 3)"

definition spec_clamp :: "pyfloat \<Rightarrow> pyfloat" where
  "spec_clamp s =
     (if float_lt s (Finite 0) then Finite 0
      else if float_gt s (Finite 100) then Finite 100
      else s)"

definition spec_score :: "pyfloat \<Rightarrow> int \<Rightarrow> int \<Rightarrow> pyfloat" where
  "spec_score t g a = py_round1 (spec_clamp (spec_sum t g a))"


subsection \<open>The event store adapter\<close>

text \<open>
  \<^verbatim>\<open>create_document\<close> and \<^verbatim>\<open>get_documents\<close> come from the module \<^verbatim>\<open>database\<close>, which is not
  among the sources: both are parameters. \<open>create_document\<close> takes the state of the
  store, the collection and the event and gives the new state with the identifier of
  the record, or with the exception it raised; \<open>get_documents\<close> takes the collection and
  the limit and gives the documents, or the exception.
\<close>

text \<open>Lines 65 to 71: the handler of the ingest route.\<close>

definition ingest_sensor_event ::
  "('st \<Rightarrow> string \<Rightarrow> SensorEvent \<Rightarrow> ('x + string) \<times> 'st) \<Rightarrow> 'st \<Rightarrow> SensorEvent
    \<Rightarrow> (error + string) \<times> 'st" where
  "ingest_sensor_event create_document st event =
     (case create_document st ''sensorevent'' event of
        (Inl e, st') \<Rightarrow> (Inl (HTTPException 500), st')
      | (Inr inserted_id, st') \<Rightarrow> (Inr inserted_id, st'))"

text \<open>
  The route as the framework runs it: the body is validated into the model the handler
  declares for its parameter, and the handler runs only on a valid model.
\<close>

definition post_ingest ::
  "pylib \<Rightarrow> ('st \<Rightarrow> string \<Rightarrow> SensorEvent \<Rightarrow> ('x + string) \<times> 'st) \<Rightarrow> 'st \<Rightarrow> document
    \<Rightarrow> (error + string) \<times> 'st" where
  "post_ingest lib create_document st body =
     (case new_SensorEvent lib body of
        Inl e \<Rightarrow> (Inl e, st)
      | Inr event \<Rightarrow> ingest_sensor_event create_document st event)"

definition post_assess :: "pylib \<Rightarrow> document \<Rightarrow> error + InsightResponse" where
  "post_assess lib body =
     (case new_InsightRequest lib body of
        Inl e \<Rightarrow> Inl e
      | Inr payload \<Rightarrow> assess_risk payload)"

text \<open>
  Lines 84 and 85: the sort key. \<open>now\<close> is the value \<^verbatim>\<open>datetime.now(timezone.utc)\<close> has
  while the key of this document is computed; \<^verbatim>\<open>or\<close> passes over a value that is false.
\<close>

definition key_fn :: "datetime \<Rightarrow> document \<Rightarrow> pyval" where
  "key_fn now d =
     (if truthy (dict_get d ''created_at'') then dict_get d ''created_at''
      else if truthy (dict_get d ''timestamp'') then dict_get d ''timestamp''
      else VDatetime now)"

text \<open>
  \<^verbatim>\<open>sorted\<close> computes the key of every document first, in the order of the list; the clock
  gives the UTC time, in microseconds, at the computation of the key at each position.
\<close>

definition keys_of :: "(nat \<Rightarrow> int) \<Rightarrow> document list \<Rightarrow> pyval list" where
  "keys_of clock docs =
     map (\<lambda>(i, d). key_fn \<lparr>aware = True, micros = clock i\<rparr> d) (enumerate 0 docs)"

text \<open>
  Line 86: \<^verbatim>\<open>sorted(docs, key=key_fn, reverse=True)\<close>. The sort compares keys with \<^verbatim>\<open><\<close>
  only, and an exception of a comparison ends it. On the values above \<^verbatim>\<open><\<close> raises for two
  keys of kinds that do not compare and is a strict weak order inside a kind, so a sort
  raises exactly when two of its keys do not compare (it cannot interleave two kinds
  without comparing across them), and otherwise returns the one stable descending
  arrangement: a document goes before the first one whose key is not greater. A NaN key
  is the exception, where the arrangement depends on the steps of the algorithm; the
  theorems about order exclude it.
\<close>

fun all_comparable :: "pyval list \<Rightarrow> bool" where
  "all_comparable [] = True"
| "all_comparable (k # ks) =
     (list_all (\<lambda>k'. \<not> isl (py_lt k k') \<and> \<not> isl (py_lt k' k)) ks \<and> all_comparable ks)"

fun insert_desc :: "pyval \<times> 'a \<Rightarrow> (pyval \<times> 'a) list \<Rightarrow> (pyval \<times> 'a) list" where
  "insert_desc x [] = [x]"
| "insert_desc x (y # ys) =
     (if py_lt (fst x) (fst y) = Inr True then y # insert_desc x ys else x # y # ys)"

definition py_sorted_desc :: "(pyval \<times> 'a) list \<Rightarrow> error + (pyval \<times> 'a) list" where
  "py_sorted_desc kxs =
     (if all_comparable (map fst kxs) then Inr (foldr insert_desc kxs []) else Inl TypeError)"

text \<open>
  Lines 89 to 97, the body of the loop: the identifier is popped, a timestamp that is a
  string is replaced by its parse when \<^verbatim>\<open>fromisoformat\<close> succeeds and left alone when it
  raises, and the document is given to \<^verbatim>\<open>SensorEvent\<close>.
\<close>

definition pop_id :: "document \<Rightarrow> document" where
  "pop_id d = d(''_id'' := None)"

definition coerce_timestamp :: "pylib \<Rightarrow> document \<Rightarrow> document" where
  "coerce_timestamp lib d =
     (case d ''timestamp'' of
        Some (VStr s) \<Rightarrow>
          (case fromisoformat lib s of
             None \<Rightarrow> d
           | Some dt \<Rightarrow> d(''timestamp'' \<mapsto> VDatetime dt))
      | _ \<Rightarrow> d)"

definition prepare_doc :: "pylib \<Rightarrow> document \<Rightarrow> document" where
  "prepare_doc lib d = coerce_timestamp lib (pop_id d)"

fun build_items :: "pylib \<Rightarrow> document list \<Rightarrow> error + SensorEvent list" where
  "build_items lib [] = Inr []"
| "build_items lib (d # ds) =
     (case new_SensorEvent lib (prepare_doc lib d) of
        Inl e \<Rightarrow> Inl e
      | Inr item \<Rightarrow>
          (case build_items lib ds of
             Inl e \<Rightarrow> Inl e
           | Inr items \<Rightarrow> Inr (item # items)))"

text \<open>
  Lines 79 to 100. The parameter \<open>limit\<close> is \<open>None\<close> when the caller gives none, and the
  default of the signature applies. Every exception inside the \<^verbatim>\<open>try\<close> becomes the
  \<^verbatim>\<open>HTTPException\<close> with status 500.
\<close>

definition default_limit :: int where
  "default_limit = 20"

definition get_recent_readings ::
  "pylib \<Rightarrow> (string \<Rightarrow> int \<Rightarrow> 'x + document list) \<Rightarrow> (nat \<Rightarrow> int) \<Rightarrow> int option
    \<Rightarrow> error + SensorEvent list" where
  "get_recent_readings lib get_documents clock limit =
     (case get_documents ''sensorevent'' (case limit of None \<Rightarrow> default_limit | Some l \<Rightarrow> l) of
        Inl e \<Rightarrow> Inl (HTTPException 500)
      | Inr docs \<Rightarrow>
          (case py_sorted_desc (zip (keys_of clock docs) docs) of
             Inl e \<Rightarrow> Inl (HTTPException 500)
           | Inr docs_sorted \<Rightarrow>
               (case build_items lib (map snd docs_sorted) of
                  Inl e \<Rightarrow> Inl (HTTPException 500)
                | Inr items \<Rightarrow> Inr items)))"

text \<open>
  A library that converts nothing: \<^verbatim>\<open>fromisoformat\<close> and the lax conversions reject every
  input. It stands for the real library on inputs that the real one rejects too.
\<close>

definition strict_lib :: pylib where
  "strict_lib =
     \<lparr>fromisoformat = (\<lambda>s. None), lax_datetime = (\<lambda>v. None), lax_float = (\<lambda>v. None),
      lax_int = (\<lambda>v. None), lax_str = (\<lambda>v. None)\<rparr>"

subsection \<open>Sample documents\<close>

text \<open>
  Three stored documents for the worked examples: two well-formed readings, and one whose
  timestamp is a string that is no date.
\<close>

definition doc_old :: document where
  "doc_old =
     [''_id'' \<mapsto> VObjectId ''a1'',
      ''timestamp'' \<mapsto> VDatetime \<lparr>aware = False, micros = 1000\<rparr>,
      ''temperature_c'' \<mapsto> VFloat (Finite 20),
      ''gas_ppm'' \<mapsto> VInt 5,
      ''aqi'' \<mapsto> VInt 40,
      ''created_at'' \<mapsto> VDatetime \<lparr>aware = False, micros = 1500\<rparr>]"

definition doc_new :: document where
  "doc_new =
     [''_id'' \<mapsto> VObjectId ''a2'',
      ''timestamp'' \<mapsto> VDatetime \<lparr>aware = False, micros = 2000\<rparr>,
      ''temperature_c'' \<mapsto> VFloat (Finite 21),
      ''gas_ppm'' \<mapsto> VInt 7,
      ''aqi'' \<mapsto> VInt 42,
      ''created_at'' \<mapsto> VDatetime \<lparr>aware = False, micros = 2500\<rparr>]"

definition doc_garbled :: document where
  "doc_garbled =
     [''_id'' \<mapsto> VObjectId ''a3'',
      ''timestamp'' \<mapsto> VStr ''not-a-date'',
      ''temperature_c'' \<mapsto> VFloat (Finite 22),
      ''gas_ppm'' \<mapsto> VInt 9,
      ''aqi'' \<mapsto> VInt 44,
      ''created_at'' \<mapsto> VDatetime \<lparr>aware = False, micros = 3500\<rparr>]"

text \<open>The events of the two well-formed documents.\<close>

definition event_old :: SensorEvent where
  "event_old =
     \<lparr>SensorEvent.timestamp = \<lparr>aware = False, micros = 1000\<rparr>,
      SensorEvent.temperature_c = Finite 20, SensorEvent.gas_ppm = 5, SensorEvent.aqi = 40,
      SensorEvent.location = None, SensorEvent.notes = None, SensorEvent.source = ''raspi''\<rparr>"

definition event_new :: SensorEvent where
  "event_new =
     \<lparr>SensorEvent.timestamp = \<lparr>aware = False, micros = 2000\<rparr>,
      SensorEvent.temperature_c = Finite 21, SensorEvent.gas_ppm = 7, SensorEvent.aqi = 42,
      SensorEvent.location = None, SensorEvent.notes = None, SensorEvent.source = ''raspi''\<rparr>"

subsection \<open>Kinds of sort keys\<close>





section \<open>Properties of the float model\<close>

lemma ilog2_lower: assumes "x \<noteq> 0" shows "2 powi (ilog2 x) \<le> \<bar>x\<bar>"
proof -
  obtain a b where q: "quotient_of \<bar>x\<bar> = (a, b)" by (cases "quotient_of \<bar>x\<bar>")
  have b: "0 < b" using quotient_of_denom_pos [OF q] .
  have xq: "\<bar>x\<bar> = of_int a / of_int b" using quotient_of_div [OF q] .
  have a: "0 < a"
  proof -
    have "0 < \<bar>x\<bar>" using assms by simp
    with xq b show ?thesis by (simp add: zero_less_divide_iff)
  qed
  let ?k = "bitlen a - bitlen b"
  show ?thesis
  proof (cases "(2::rat) powi ?k \<le> \<bar>x\<bar>")
    case True
    then show ?thesis by (simp add: ilog2_def q Let_def)
  next
    case False
    have la: "1 \<le> bitlen a" using a by (simp add: bitlen_alt_def)
    have lb: "0 \<le> bitlen b" by (rule bitlen_nonneg)
    have A: "(2::rat) ^ nat (bitlen a - 1) \<le> of_int a"
    proof -
      have "2 ^ nat (bitlen a - 1) \<le> a" using bitlen_bounds [OF a] by simp
      then have "(of_int (2 ^ nat (bitlen a - 1)) :: rat) \<le> of_int a" by (simp only: of_int_le_iff)
      then show ?thesis by simp
    qed
    have B: "(of_int b :: rat) \<le> 2 ^ nat (bitlen b)"
    proof -
      have "b \<le> 2 ^ nat (bitlen b)" using bitlen_bounds [OF b] by simp
      then have "(of_int b :: rat) \<le> of_int (2 ^ nat (bitlen b))" by (simp only: of_int_le_iff)
      then show ?thesis by simp
    qed
    have "(2::rat) powi (?k - 1) = 2 powi (bitlen a - 1) / 2 powi (bitlen b)"
      by (simp add: power_int_diff)
    also have "\<dots> = 2 ^ nat (bitlen a - 1) / 2 ^ nat (bitlen b)"
      using la lb by (simp add: power_int_nonneg_exp)
    also have "\<dots> \<le> of_int a / of_int b"
      using A B a b by (intro frac_le) auto
    finally have "(2::rat) powi (?k - 1) \<le> \<bar>x\<bar>" using xq by simp
    with False show ?thesis by (simp add: ilog2_def q Let_def)
  qed
qed

lemma round_half_even_le: "z \<le> of_int m \<Longrightarrow> round_half_even z \<le> m"
proof -
  assume le: "z \<le> of_int m"
  then have f: "\<lfloor>z\<rfloor> \<le> m" by (simp add: floor_le_iff)
  show ?thesis
  proof (cases "\<lfloor>z\<rfloor> = m")
    case True
    then have "z - of_int \<lfloor>z\<rfloor> \<le> 0" using le by simp
    then show ?thesis unfolding round_half_even_def Let_def using True by simp
  next
    case False
    with f have "\<lfloor>z\<rfloor> + 1 \<le> m" by simp
    then show ?thesis unfolding round_half_even_def Let_def using f by auto
  qed
qed

lemma round_half_even_ge: "of_int m \<le> z \<Longrightarrow> m \<le> round_half_even z"
proof -
  assume "of_int m \<le> z"
  then have "m \<le> \<lfloor>z\<rfloor>" by (simp add: le_floor_iff)
  then show ?thesis unfolding round_half_even_def Let_def by auto
qed


lemma quantum_pos: "0 < quantum x"
  by (simp add: quantum_def)

lemma round_half_even_0: "round_half_even 0 = 0"
  by (simp add: round_half_even_def)

text \<open>A bound that is a multiple of the quantum survives rounding.\<close>

lemma nearest_le:
  assumes "x \<le> of_int m * quantum x" shows "nearest x \<le> of_int m * quantum x"
proof (cases "x = 0")
  case True
  with assms show ?thesis by (simp add: nearest_def)
next
  case False
  have "x / quantum x \<le> of_int m"
    using assms quantum_pos [of x] by (simp add: pos_divide_le_eq)
  then have "round_half_even (x / quantum x) \<le> m" by (rule round_half_even_le)
  then have "(of_int (round_half_even (x / quantum x)) :: rat) \<le> of_int m" by simp
  then show ?thesis
    using False quantum_pos [of x] by (simp add: nearest_def)
qed

lemma nearest_ge:
  assumes "of_int m * quantum x \<le> x" shows "of_int m * quantum x \<le> nearest x"
proof (cases "x = 0")
  case True
  with assms show ?thesis by (simp add: nearest_def)
next
  case False
  have "of_int m \<le> x / quantum x"
    using assms quantum_pos [of x] by (simp add: pos_le_divide_eq)
  then have "m \<le> round_half_even (x / quantum x)" by (rule round_half_even_ge)
  then have "(of_int m :: rat) \<le> of_int (round_half_even (x / quantum x))" by simp
  then show ?thesis
    using False quantum_pos [of x] by (simp add: nearest_def)
qed

lemma nearest_nonneg: "0 \<le> x \<Longrightarrow> 0 \<le> nearest x"
  using nearest_ge [of 0 x] by simp

lemma nearest_nonpos: "x \<le> 0 \<Longrightarrow> nearest x \<le> 0"
  using nearest_le [of x 0] by simp

text \<open>The exponent of the quantum, bounded by the size of the argument.\<close>

lemma quantum_exponent:
  assumes "x \<noteq> 0" "\<bar>x\<bar> < 2 powi (m + 53)" "- 1074 \<le> m"
  shows "\<exists>k. quantum x * 2 ^ k = 2 powi m"
proof -
  let ?j = "max (ilog2 x) (- 1022) - 52"
  have "(2::rat) powi (ilog2 x) < 2 powi (m + 53)"
    using ilog2_lower [OF assms(1)] assms(2) by simp
  then have "ilog2 x < m + 53"
    using power_int_increasing [of "m + 53" "ilog2 x" "2::rat"] by (cases "ilog2 x < m + 53") auto
  with assms(3) have j: "?j \<le> m" by simp
  have "(2::rat) powi m = 2 powi (?j + (m - ?j))" by simp
  also have "\<dots> = 2 powi ?j * 2 powi (m - ?j)" by (subst power_int_add) auto
  also have "\<dots> = quantum x * 2 ^ nat (m - ?j)"
    using j by (simp add: quantum_def power_int_nonneg_exp)
  finally show ?thesis by metis
qed

lemma nearest_le_scaled:
  assumes "\<bar>x\<bar> < 2 powi (m + 53)" "- 1074 \<le> m" "x \<le> of_int b * 2 powi m"
  shows "nearest x \<le> of_int b * 2 powi m"
proof (cases "x = 0")
  case True
  with assms(3) show ?thesis by (simp add: nearest_def)
next
  case False
  from quantum_exponent [OF False assms(1,2)] obtain k where k: "quantum x * 2 ^ k = 2 powi m" ..
  have e: "of_int b * 2 powi m = of_int (b * 2 ^ k) * quantum x"
    by (simp add: k [symmetric])
  show ?thesis using assms(3) unfolding e by (rule nearest_le)
qed

lemma nearest_ge_scaled:
  assumes "\<bar>x\<bar> < 2 powi (m + 53)" "- 1074 \<le> m" "of_int b * 2 powi m \<le> x"
  shows "of_int b * 2 powi m \<le> nearest x"
proof (cases "x = 0")
  case True
  with assms(3) show ?thesis by (simp add: nearest_def)
next
  case False
  from quantum_exponent [OF False assms(1,2)] obtain k where k: "quantum x * 2 ^ k = 2 powi m" ..
  have e: "of_int b * 2 powi m = of_int (b * 2 ^ k) * quantum x"
    by (simp add: k [symmetric])
  show ?thesis using assms(3) unfolding e by (rule nearest_ge)
qed

text \<open>Floats between 0 and 100 stay there when rounded.\<close>

lemma fl_0_100:
  assumes "0 \<le> x" "x \<le> 100"
  shows "\<exists>y. fl x = Finite y \<and> 0 \<le> y \<and> y \<le> 100"
proof -
  have a: "\<bar>x\<bar> < 2 powi (0 + 53)" using assms by simp
  have "nearest x \<le> of_int 100 * 2 powi 0"
    using assms by (intro nearest_le_scaled [OF a]) auto
  then have hi: "nearest x \<le> 100" by simp
  have lo: "0 \<le> nearest x" using assms(1) by (rule nearest_nonneg)
  have "fl x = Finite (nearest x)" using hi lo by (simp add: fl_def Let_def)
  with hi lo show ?thesis by simp
qed

lemma py_round1_0_100:
  assumes "0 \<le> x" "x \<le> 100"
  shows "\<exists>k y. py_round1 (Finite x) = fl (of_int k / 10) \<and> 0 \<le> k \<and> k \<le> 1000
    \<and> py_round1 (Finite x) = Finite y \<and> 0 \<le> y \<and> y \<le> 100"
proof -
  let ?k = "round_half_even (x * 10)"
  have k0: "0 \<le> ?k" using assms(1) by (intro round_half_even_ge) simp
  have k1: "?k \<le> 1000" using assms(2) by (intro round_half_even_le) simp
  have "0 \<le> (of_int ?k :: rat) / 10" "(of_int ?k :: rat) / 10 \<le> 100"
    using k0 k1 by simp_all
  from fl_0_100 [OF this] obtain y where "fl (of_int ?k / 10) = Finite y" "0 \<le> y" "y \<le> 100"
    by blast
  with k0 k1 show ?thesis by (intro exI [of _ ?k] exI [of _ y]) simp
qed

lemma clamp_score_range: "\<exists>c. clamp_score s = Finite c \<and> 0 \<le> c \<and> c \<le> 100"
  by (cases s) (auto simp: clamp_score_def py_max_def py_min_def float_gt_def)

lemma round_half_even_le_half: "z < of_int m + 1 / 2 \<Longrightarrow> round_half_even z \<le> m"
proof -
  assume lt: "z < of_int m + 1 / 2"
  then have "z < of_int m + 1" by simp
  then have f: "\<lfloor>z\<rfloor> \<le> m" by (simp only: floor_le_iff)
  show ?thesis
  proof (cases "\<lfloor>z\<rfloor> = m")
    case True
    then have "z - of_int \<lfloor>z\<rfloor> < 1 / 2" using lt by simp
    then show ?thesis unfolding round_half_even_def Let_def using True by simp
  next
    case False
    with f have "\<lfloor>z\<rfloor> + 1 \<le> m" by simp
    then show ?thesis unfolding round_half_even_def Let_def using f by auto
  qed
qed

lemma round_half_even_ge_half: "of_int m - 1 / 2 < z \<Longrightarrow> m \<le> round_half_even z"
proof -
  assume lt: "of_int m - 1 / 2 < z"
  then have "of_int (m - 1) \<le> z" by simp
  then have f: "m - 1 \<le> \<lfloor>z\<rfloor>" by (simp only: le_floor_iff)
  show ?thesis
  proof (cases "\<lfloor>z\<rfloor> = m - 1")
    case True
    then have "1 / 2 < z - of_int \<lfloor>z\<rfloor>" using lt by simp
    then show ?thesis unfolding round_half_even_def Let_def using True by simp
  next
    case False
    with f have "m \<le> \<lfloor>z\<rfloor>" by simp
    then show ?thesis unfolding round_half_even_def Let_def by auto
  qed
qed

lemma lit_1_2_value: "lit_1_2 = Finite (5404319552844595 / 4503599627370496)"
proof -
  have "nearest (12 / 10) = 5404319552844595 / 4503599627370496" by code_simp
  then show ?thesis by (simp add: lit_1_2_def fl_def Let_def)
qed

text \<open>The overflow threshold of binary64: half a quantum above the largest float.\<close>

lemma nearest_below_threshold:
  assumes "\<bar>x\<bar> < 2 ^ 1024 - 2 ^ 970"
  shows "nearest x < 2 ^ 1024" and "- (2 ^ 1024) < nearest x"
proof -
  have big: "\<bar>x\<bar> < 2 powi (971 + 53)" using assms by simp
  have "nearest x < 2 ^ 1024 \<and> - (2 ^ 1024) < nearest x"
  proof (cases "x = 0")
    case True
    then show ?thesis by (simp add: nearest_def)
  next
    case False
    from quantum_exponent [OF False big] obtain k where k: "quantum x * 2 ^ k = 2 powi 971"
      by auto
    show ?thesis
    proof (cases k)
      case 0
      with k have q: "quantum x = 2 ^ 971" by simp
      have "x / quantum x < of_int (2 ^ 53 - 1) + 1 / 2"
        using assms unfolding q by (simp add: pos_divide_less_eq)
      then have "round_half_even (x / quantum x) \<le> 2 ^ 53 - 1"
        by (rule round_half_even_le_half)
      then have "(of_int (round_half_even (x / quantum x)) :: rat) \<le> of_int (2 ^ 53 - 1)"
        by (simp only: of_int_le_iff)
      then have hi: "nearest x \<le> of_int (2 ^ 53 - 1) * 2 ^ 971"
        using False unfolding nearest_def q by simp
      have "of_int (- (2 ^ 53 - 1)) - 1 / 2 < x / quantum x"
        using assms unfolding q by (simp add: pos_less_divide_eq)
      then have "- (2 ^ 53 - 1) \<le> round_half_even (x / quantum x)"
        by (rule round_half_even_ge_half)
      then have "(of_int (- (2 ^ 53 - 1)) :: rat) \<le> of_int (round_half_even (x / quantum x))"
        by (simp only: of_int_le_iff)
      then have lo: "of_int (- (2 ^ 53 - 1)) * 2 ^ 971 \<le> nearest x"
        using False unfolding nearest_def q by simp
      from hi lo show ?thesis by simp
    next
      case (Suc k')
      have T: "(2::rat) ^ 1024 - 2 ^ 970 = of_int ((2 ^ 54 - 1) * 2 ^ k') * quantum x"
      proof -
        have "of_int ((2 ^ 54 - 1) * 2 ^ k') * quantum x * 2 = (2 ^ 54 - 1) * (quantum x * 2 ^ k)"
          using Suc by simp
        also have "\<dots> = (2 ^ 54 - 1) * 2 ^ 971" unfolding k by simp
        also have "\<dots> = ((2::rat) ^ 1024 - 2 ^ 970) * 2" by simp
        finally show ?thesis by simp
      qed
      have "x \<le> of_int ((2 ^ 54 - 1) * 2 ^ k') * quantum x"
        using assms unfolding T [symmetric] by simp
      from nearest_le [OF this] have hi: "nearest x \<le> 2 ^ 1024 - 2 ^ 970"
        unfolding T [symmetric] .
      have T': "- ((2::rat) ^ 1024 - 2 ^ 970) = of_int (- ((2 ^ 54 - 1) * 2 ^ k')) * quantum x"
        using T by simp
      have "of_int (- ((2 ^ 54 - 1) * 2 ^ k')) * quantum x \<le> x"
        using assms unfolding T' [symmetric] by simp
      from nearest_ge [OF this] have lo: "- (2 ^ 1024 - 2 ^ 970) \<le> nearest x"
        unfolding T' [symmetric] .
      from hi lo show ?thesis by simp
    qed
  qed
  then show "nearest x < 2 ^ 1024" and "- (2 ^ 1024) < nearest x" by simp_all
qed

lemma fl_finite:
  assumes "\<bar>x\<bar> < 2 ^ 1024 - 2 ^ 970"
  shows "fl x = Finite (nearest x)"
  using nearest_below_threshold [OF assms] by (simp add: fl_def Let_def)

lemma fl_not_NaN: "fl x \<noteq> NaN"
  by (simp add: fl_def Let_def)

lemma int_truediv_12:
  assumes "\<bar>g\<bar> < 12 * (2 ^ 1024 - 2 ^ 970)"
  shows "int_truediv g 12 = Inr (Finite (nearest (of_int g / 12)))"
proof -
  have "\<bar>(of_int g :: rat)\<bar> < of_int (12 * (2 ^ 1024 - 2 ^ 970))"
    using assms by (simp only: of_int_abs [symmetric] of_int_less_iff)
  then have "\<bar>(of_int g :: rat) / 12\<bar> < 2 ^ 1024 - 2 ^ 970" by simp
  from fl_finite [OF this] show ?thesis by (simp add: int_truediv_def)
qed

lemma int_truediv_3:
  assumes "\<bar>a\<bar> < 3 * (2 ^ 1024 - 2 ^ 970)"
  shows "int_truediv a 3 = Inr (Finite (nearest (of_int a / 3)))"
proof -
  have "\<bar>(of_int a :: rat)\<bar> < of_int (3 * (2 ^ 1024 - 2 ^ 970))"
    using assms by (simp only: of_int_abs [symmetric] of_int_less_iff)
  then have "\<bar>(of_int a :: rat) / 3\<bar> < 2 ^ 1024 - 2 ^ 970" by simp
  from fl_finite [OF this] show ?thesis by (simp add: int_truediv_def)
qed

lemma ilog2_upper: assumes "x \<noteq> 0" shows "\<bar>x\<bar> < 2 powi (ilog2 x + 1)"
proof -
  obtain a b where q: "quotient_of \<bar>x\<bar> = (a, b)" by (cases "quotient_of \<bar>x\<bar>")
  have b: "0 < b" using quotient_of_denom_pos [OF q] .
  have xq: "\<bar>x\<bar> = of_int a / of_int b" using quotient_of_div [OF q] .
  have a: "0 < a"
  proof -
    have "0 < \<bar>x\<bar>" using assms by simp
    with xq b show ?thesis by (simp add: zero_less_divide_iff)
  qed
  let ?k = "bitlen a - bitlen b"
  have la: "0 \<le> bitlen a" by (rule bitlen_nonneg)
  have lb: "1 \<le> bitlen b" using b by (simp add: bitlen_alt_def)
  have A: "(of_int a :: rat) < 2 ^ nat (bitlen a)"
  proof -
    have "a < 2 ^ nat (bitlen a)" using bitlen_bounds [OF a] by simp
    then have "(of_int a :: rat) < of_int (2 ^ nat (bitlen a))" by (simp only: of_int_less_iff)
    then show ?thesis by simp
  qed
  have B: "(2::rat) ^ nat (bitlen b - 1) \<le> of_int b"
  proof -
    have "2 ^ nat (bitlen b - 1) \<le> b" using bitlen_bounds [OF b] by simp
    then have "(of_int (2 ^ nat (bitlen b - 1)) :: rat) \<le> of_int b" by (simp only: of_int_le_iff)
    then show ?thesis by simp
  qed
  have "of_int a / of_int b < (2::rat) ^ nat (bitlen a) / 2 ^ nat (bitlen b - 1)"
    using A B a b by (intro frac_less) auto
  also have "\<dots> = 2 powi (bitlen a) / 2 powi (bitlen b - 1)"
    using la lb by (simp add: power_int_nonneg_exp)
  also have "\<dots> = 2 powi (bitlen a - (bitlen b - 1))"
    by (rule power_int_diff [symmetric]) simp
  also have "bitlen a - (bitlen b - 1) = ?k + 1" by simp
  finally have up: "\<bar>x\<bar> < 2 powi (?k + 1)" using xq by simp
  show ?thesis
  proof (cases "(2::rat) powi ?k \<le> \<bar>x\<bar>")
    case True
    with up show ?thesis by (simp add: ilog2_def q Let_def)
  next
    case False
    then show ?thesis by (simp add: ilog2_def q Let_def)
  qed
qed

lemma powi2_less_imp: "(2::rat) powi a < 2 powi b \<Longrightarrow> a < b"
  using power_int_increasing [of b a "2::rat"] by (cases "a < b") auto

lemma ilog2_eqI:
  assumes "2 powi e \<le> \<bar>x\<bar>" "\<bar>x\<bar> < 2 powi (e + 1)"
  shows "ilog2 x = e"
proof -
  have "(0::rat) < 2 powi e" by (rule zero_less_power_int) simp
  with assms(1) have "0 < \<bar>x\<bar>" by linarith
  then have x: "x \<noteq> 0" by simp
  have "(2::rat) powi e < 2 powi (ilog2 x + 1)"
    using assms(1) ilog2_upper [OF x] by simp
  then have 1: "e < ilog2 x + 1" by (rule powi2_less_imp)
  have "(2::rat) powi (ilog2 x) < 2 powi (e + 1)"
    using assms(2) ilog2_lower [OF x] by simp
  then have 2: "ilog2 x < e + 1" by (rule powi2_less_imp)
  from 1 2 show ?thesis by simp
qed

lemma round_half_even_of_int: "round_half_even (of_int n) = n"
  by (simp add: round_half_even_def)

lemma round_half_even_uminus: "round_half_even (- z) = - round_half_even z"
proof (cases "z \<in> \<int>")
  case True
  then obtain n where "z = of_int n" by (rule Ints_cases)
  then have "round_half_even z = n" "round_half_even (- z) = - n"
    using round_half_even_of_int [of n] round_half_even_of_int [of "- n"] by simp_all
  then show ?thesis by simp
next
  case False
  have ne: "of_int \<lfloor>z\<rfloor> \<noteq> z" using False by (metis Ints_of_int)
  then have "\<lceil>z\<rceil> = \<lfloor>z\<rfloor> + 1" by (simp add: ceiling_altdef)
  then have f: "\<lfloor>- z\<rfloor> = - \<lfloor>z\<rfloor> - 1"
    by (simp add: ceiling_def)
  have "of_int \<lfloor>z\<rfloor> < z" by (rule le_neq_trans [OF of_int_floor_le ne])
  then have r: "0 < z - of_int \<lfloor>z\<rfloor>" by (simp only: diff_gt_0_iff_gt)
  show ?thesis
    using r unfolding round_half_even_def Let_def f by (auto simp: algebra_simps)
qed

lemma ilog2_uminus: "ilog2 (- x) = ilog2 x"
  by (simp add: ilog2_def)

lemma quantum_uminus: "quantum (- x) = quantum x"
  by (simp add: quantum_def ilog2_uminus)

lemma nearest_uminus: "nearest (- x) = - nearest x"
  by (simp add: nearest_def quantum_uminus round_half_even_uminus)

lemma powi2_split: "(2::rat) powi (a + b) = 2 powi a * 2 powi b"
  by (rule power_int_add) simp

lemma nearest_multiple:
  assumes "quantum z = q" "z = of_int n * q"
  shows "nearest z = z"
proof (cases "z = 0")
  case True
  then show ?thesis by (simp add: nearest_def)
next
  case False
  have q: "q \<noteq> 0" using quantum_pos [of z] assms(1) by simp
  have "z / quantum z = of_int n" using assms q by simp
  then show ?thesis
    using False assms by (simp add: nearest_def round_half_even_of_int)
qed

lemma nearest_idem_pos:
  assumes y: "0 < y"
  shows "nearest (nearest y) = nearest y"
proof -
  define e where "e = ilog2 y"
  define E where "E = max e (- 1022)"
  define q where "q = (2::rat) powi (E - 52)"
  define n where "n = round_half_even (y / q)"
  define z where "z = of_int n * q"
  have y0: "y \<noteq> 0" using y by simp
  have qy: "quantum y = q" by (simp add: quantum_def q_def E_def e_def)
  have zy: "nearest y = z" using y0 by (simp add: nearest_def qy z_def n_def)
  have qpos: "0 < q" by (simp add: q_def)
  have lo: "2 powi e \<le> y" using ilog2_lower [OF y0] y by (simp add: e_def)
  have "y < 2 powi (e + 1)" using ilog2_upper [OF y0] y by (simp add: e_def)
  also have "(2::rat) powi (e + 1) \<le> 2 powi (E + 1)"
    by (rule power_int_increasing) (simp_all add: E_def)
  finally have up: "y < 2 powi (E + 1)" .
  have top: "(2::rat) powi (E + 1) = of_int (2 ^ 53) * q"
  proof -
    have i: "E + 1 = 53 + (E - 52)" by simp
    have "(2::rat) powi (E + 1) = 2 powi 53 * 2 powi (E - 52)"
      by (subst i) (rule powi2_split)
    then show ?thesis by (simp add: q_def)
  qed
  have "y \<le> of_int (2 ^ 53) * q" using up top by simp
  then have "y / q \<le> of_int (2 ^ 53)" using qpos by (simp add: pos_divide_le_eq)
  then have n_hi: "n \<le> 2 ^ 53" unfolding n_def by (rule round_half_even_le)
  have "of_int 0 \<le> y / q" using y qpos by simp
  then have n_lo: "0 \<le> n" unfolding n_def by (rule round_half_even_ge)
  consider "n = 0" | "n = 2 ^ 53" | "0 < n" "n < 2 ^ 53" using n_lo n_hi by linarith
  then have "nearest z = z"
  proof cases
    case 1
    then show ?thesis by (simp add: z_def nearest_def)
  next
    case 2
    then have z2: "z = 2 powi (E + 1)" by (simp add: z_def top)
    have "(2::rat) powi (E + 1) < 2 powi (E + 1 + 1)"
      by (rule power_int_strict_increasing) simp_all
    then have "ilog2 z = E + 1" by (intro ilog2_eqI) (simp_all add: z2)
    moreover have "- 1022 \<le> E" by (simp add: E_def)
    ultimately have qz: "quantum z = 2 powi (E - 51)" by (simp add: quantum_def max_def)
    have i: "E + 1 = 52 + (E - 51)" by simp
    have "(2::rat) powi (E + 1) = 2 powi 52 * 2 powi (E - 51)"
      by (subst i) (rule powi2_split)
    then have "z = of_int (2 ^ 52) * 2 powi (E - 51)" by (simp add: z2)
    with qz show ?thesis by (rule nearest_multiple)
  next
    case 3
    have zpos: "0 < z" using 3(1) qpos by (simp add: z_def)
    then have z0: "z \<noteq> 0" by simp
    have "(of_int n :: rat) < of_int (2 ^ 53)" using 3(2) by (simp only: of_int_less_iff)
    then have zup: "z < 2 powi (E + 1)" using qpos by (simp add: z_def top)
    have "(2::rat) powi (ilog2 z) < 2 powi (E + 1)"
      using ilog2_lower [OF z0] zpos zup by simp
    then have iz_hi: "ilog2 z < E + 1" by (rule powi2_less_imp)
    have "max (ilog2 z) (- 1022) = E"
    proof (cases "- 1022 \<le> e")
      case True
      then have Ee: "E = e" by (simp add: E_def)
      have bot: "(2::rat) powi e = of_int (2 ^ 52) * q"
      proof -
        have i: "e = 52 + (e - 52)" by simp
        have "(2::rat) powi e = 2 powi 52 * 2 powi (e - 52)"
          by (subst i) (rule powi2_split)
        then show ?thesis by (simp add: q_def Ee)
      qed
      have "of_int (2 ^ 52) \<le> y / q" using lo bot qpos by (simp add: pos_le_divide_eq)
      then have "2 ^ 52 \<le> n" unfolding n_def by (rule round_half_even_ge)
      then have "(of_int (2 ^ 52) :: rat) \<le> of_int n" by (simp only: of_int_le_iff)
      then have "2 powi e \<le> z" using qpos by (simp add: z_def bot)
      then have "(2::rat) powi e < 2 powi (ilog2 z + 1)"
        using ilog2_upper [OF z0] zpos by simp
      then have "e < ilog2 z + 1" by (rule powi2_less_imp)
      with iz_hi Ee True show ?thesis by simp
    next
      case False
      then have "E = - 1022" by (simp add: E_def)
      with iz_hi show ?thesis by simp
    qed
    then have "quantum z = q" by (simp add: quantum_def q_def)
    then show ?thesis using z_def by (rule nearest_multiple)
  qed
  then show ?thesis by (simp add: zy)
qed

lemma nearest_idem: "nearest (nearest y) = nearest y"
proof -
  consider "y = 0" | "0 < y" | "0 < - y" by linarith
  then show ?thesis
  proof cases
    case 1
    then show ?thesis by (simp add: nearest_def)
  next
    case 2
    then show ?thesis by (rule nearest_idem_pos)
  next
    case 3
    from nearest_idem_pos [OF this] show ?thesis by (simp add: nearest_uminus)
  qed
qed

lemma fl_idem: "fl x = Finite y \<Longrightarrow> fl y = Finite y"
  by (auto simp: fl_def Let_def nearest_idem split: if_splits)

lemma float_add_zero_fl: "float_add (Finite 0) (fl x) = fl x"
  by (cases "fl x") (auto dest: fl_idem)


section \<open>Properties of the risk scorer\<close>

lemma py_max_0_cases:
  "(\<exists>a. py_max (Finite 0) x = Finite a \<and> 0 \<le> a) \<or> py_max (Finite 0) x = PosInf"
  by (cases x) (auto simp: py_max_def float_gt_def)

lemma py_max_0_spec: "py_max (Finite 0) x = spec_max0 x"
  by (simp add: py_max_def spec_max0_def)

lemma lit_1_2_pos: "\<exists>c. lit_1_2 = Finite c \<and> 0 < c"
  unfolding lit_1_2_value by (intro exI conjI, rule refl) simp

text \<open>The temperature term is the result of a float operation, and never a NaN.\<close>

lemma temperature_term:
  "(\<exists>x. float_mul (py_max (Finite 0) u) lit_1_2 = fl x)
    \<or> float_mul (py_max (Finite 0) u) lit_1_2 = PosInf"
proof -
  obtain c where c: "lit_1_2 = Finite c" "0 < c" using lit_1_2_pos by blast
  from py_max_0_cases [of u] show ?thesis
    using c(2) by (auto simp: c(1))
qed

lemma add_zero_temperature_term:
  "float_add (Finite 0) (float_mul (py_max (Finite 0) u) lit_1_2)
     = float_mul (py_max (Finite 0) u) lit_1_2"
  using temperature_term [of u] by (auto simp: float_add_zero_fl)

lemma float_add_Finite_NaN: "float_add x (Finite q) = NaN \<longleftrightarrow> x = NaN"
  by (cases x) (simp_all add: fl_not_NaN)

lemma int_truediv_Inr: "int_truediv a b = Inr q \<Longrightarrow> b \<noteq> 0 \<Longrightarrow> q = fl (of_int a / of_int b) \<and> (\<exists>r. q = Finite r)"
  by (cases "fl (of_int a / of_int b)") (auto simp: int_truediv_def)

lemma raw_score_spec:
  assumes "raw_score p = Inr s"
  shows "s = spec_sum (temperature_c p) (gas_ppm p) (aqi p)" and "s \<noteq> NaN"
proof -
  let ?A = "float_mul (py_max (Finite 0) (float_sub (temperature_c p) (Finite 25))) lit_1_2"
  from assms obtain gq aq where g: "int_truediv (gas_ppm p) 12 = Inr gq"
    and a: "int_truediv (aqi p) 3 = Inr aq"
    and s: "s = float_add (float_add (float_add (Finite 0) ?A) gq) aq"
    by (auto simp: raw_score_def Let_def split: sum.splits)
  from int_truediv_Inr [OF g] obtain gr where gq: "gq = fl (of_int (gas_ppm p) / 12)" "gq = Finite gr"
    by auto
  from int_truediv_Inr [OF a] obtain ar where aq: "aq = fl (of_int (aqi p) / 3)" "aq = Finite ar"
    by auto
  have s': "s = float_add (float_add ?A gq) aq"
    using s by (simp only: add_zero_temperature_term)
  show "s = spec_sum (temperature_c p) (gas_ppm p) (aqi p)"
    using s' gq(1) aq(1) by (simp add: spec_sum_def spec_quotient_def py_max_0_spec)
  have "?A \<noteq> NaN" using temperature_term [of "float_sub (temperature_c p) (Finite 25)"]
    by (auto simp: fl_not_NaN)
  then show "s \<noteq> NaN"
    unfolding s' gq(2) aq(2) by (simp add: float_add_Finite_NaN)
qed

lemma clamp_score_spec: "s \<noteq> NaN \<Longrightarrow> clamp_score s = spec_clamp s"
  by (cases s) (auto simp: clamp_score_def spec_clamp_def py_max_def py_min_def float_gt_def)

lemma clamp_ge_70: "s \<noteq> NaN \<Longrightarrow> float_ge (clamp_score s) (Finite 70) \<longleftrightarrow> float_ge s (Finite 70)"
  by (cases s) (auto simp: clamp_score_def py_max_def py_min_def float_gt_def float_ge_def float_le_def)

lemma clamp_ge_45: "s \<noteq> NaN \<Longrightarrow> float_ge (clamp_score s) (Finite 45) \<longleftrightarrow> float_ge s (Finite 45)"
  by (cases s) (auto simp: clamp_score_def py_max_def py_min_def float_gt_def float_ge_def float_le_def)

lemma level_chain_clamp: "s \<noteq> NaN \<Longrightarrow> level_chain (clamp_score s) g a = level_chain s g a"
  by (simp add: level_chain_def clamp_ge_70 clamp_ge_45)

text \<open>The response is built from the clamped score whenever the sum exists.\<close>

lemma assess_risk_Inr:
  assumes "raw_score p = Inr s"
  shows "assess_risk p =
    Inr \<lparr>score = py_round1 (clamp_score s),
         level = fst (level_chain (clamp_score s) (gas_ppm p) (aqi p)),
         tips = snd (level_chain (clamp_score s) (gas_ppm p) (aqi p))\<rparr>"
proof -
  obtain c where c: "clamp_score s = Finite c" "0 \<le> c" "c \<le> 100"
    using clamp_score_range [of s] by blast
  from py_round1_0_100 [OF c(2,3)] obtain y where y: "py_round1 (Finite c) = Finite y" "0 \<le> y" "y \<le> 100"
    by blast
  have "new_InsightResponse (Finite y) l ts = Inr \<lparr>score = Finite y, level = l, tips = ts\<rparr>" for l ts
    using y(2,3) by (simp add: new_InsightResponse_def float_ge_def float_le_def)
  then show ?thesis
    by (simp add: assess_risk_def assms c(1) y(1) split: prod.splits del: py_round1.simps)
qed

lemma assess_risk_Inr_raw: "assess_risk p = Inr r \<Longrightarrow> \<exists>s. raw_score p = Inr s"
  by (cases "raw_score p") (simp_all add: assess_risk_def)

lemma fl_Finite_eval: "nearest x = y \<Longrightarrow> - (2 ^ 1024) < y \<Longrightarrow> y < 2 ^ 1024 \<Longrightarrow> fl x = Finite y"
  by (simp add: fl_def Let_def)

lemma round_half_even_numeral: "round_half_even (numeral n) = numeral n"
  using round_half_even_of_int [of "numeral n"] by simp

lemma fl_0: "fl 0 = Finite 0"
  by (simp add: fl_def nearest_def)

lemma fl_25: "fl 25 = Finite 25"
proof -
  have "nearest 25 = 25" by code_simp
  then show ?thesis by (rule fl_Finite_eval) simp_all
qed

lemma fl_30: "fl 30 = Finite 30"
proof -
  have "nearest 30 = 30" by code_simp
  then show ?thesis by (rule fl_Finite_eval) simp_all
qed

lemma fl_100: "fl 100 = Finite 100"
proof -
  have "nearest 100 = 100" by code_simp
  then show ?thesis by (rule fl_Finite_eval) simp_all
qed

lemma fl_temp_50: "fl (135107988821114875 / 4503599627370496) = Finite 30"
proof -
  have "nearest (135107988821114875 / 4503599627370496) = 30" by code_simp
  then show ?thesis by (rule fl_Finite_eval) simp_all
qed

lemma fl_aqi_500:
  "fl (500 / 3) = Finite (5864062014805333 / 35184372088832)"
  "fl (5864062014805333 / 35184372088832) = Finite (5864062014805333 / 35184372088832)"
proof -
  have "nearest (500 / 3) = 5864062014805333 / 35184372088832" by code_simp
  then show "fl (500 / 3) = Finite (5864062014805333 / 35184372088832)"
    by (rule fl_Finite_eval) simp_all
  then show "fl (5864062014805333 / 35184372088832) = Finite (5864062014805333 / 35184372088832)"
    by (rule fl_idem)
qed

lemmas eval_defs =
  raw_score_def Let_def float_sub_def py_max_def py_min_def float_gt_def float_ge_def float_le_def
  int_truediv_def lit_1_2_value clamp_score_def level_chain_def round_half_even_numeral
  round_half_even_0
  high_risk_tips_def elevated_tips_def normal_tips_def

lemma raw_score_25_0_0:
  "raw_score \<lparr>temperature_c = Finite 25, gas_ppm = 0, aqi = 0\<rparr> = Inr (Finite 0)"
  by (simp add: eval_defs fl_0)

lemma raw_score_25_0_500:
  "raw_score \<lparr>temperature_c = Finite 25, gas_ppm = 0, aqi = 500\<rparr>
     = Inr (Finite (5864062014805333 / 35184372088832))"
  by (simp add: eval_defs fl_0 fl_aqi_500)

lemma raw_score_50_0_0:
  "raw_score \<lparr>temperature_c = Finite 50, gas_ppm = 0, aqi = 0\<rparr> = Inr (Finite 30)"
  by (simp add: eval_defs fl_0 fl_25 fl_30 fl_temp_50)

lemma assess_risk_25_0_0:
  "assess_risk \<lparr>temperature_c = Finite 25, gas_ppm = 0, aqi = 0\<rparr>
     = Inr \<lparr>score = Finite 0, level = ''Normal'',
           tips = [''Continue routine monitoring'', ''Maintain clear egress routes'']\<rparr>"
  by (simp add: assess_risk_Inr [OF raw_score_25_0_0] eval_defs fl_0)

lemma assess_risk_25_0_500:
  "assess_risk \<lparr>temperature_c = Finite 25, gas_ppm = 0, aqi = 500\<rparr>
     = Inr \<lparr>score = Finite 100, level = ''High risk'',
           tips = [''Evacuate non-essential personnel'',
                   ''Engage ventilation and gas suppression systems'',
                   ''Activate incident command protocol'']\<rparr>"
  by (simp add: assess_risk_Inr [OF raw_score_25_0_500] eval_defs fl_100)

lemma assess_risk_50_0_0:
  "assess_risk \<lparr>temperature_c = Finite 50, gas_ppm = 0, aqi = 0\<rparr>
     = Inr \<lparr>score = Finite 30, level = ''Normal'',
           tips = [''Continue routine monitoring'', ''Maintain clear egress routes'']\<rparr>"
  by (simp add: assess_risk_Inr [OF raw_score_50_0_0] eval_defs fl_30)


lemma nearest_overflow:
  assumes "2 ^ 1024 \<le> x" "x < 2 ^ 1077"
  shows "fl x = PosInf"
proof -
  have "\<bar>x\<bar> < 2 powi (1024 + 53)" using assms by simp
  moreover have "of_int 1 * 2 powi 1024 \<le> x" using assms(1) by simp
  ultimately have "of_int 1 * 2 powi 1024 \<le> nearest x"
    by (intro nearest_ge_scaled) simp_all
  then show ?thesis by (simp add: fl_def Let_def)
qed

lemma int_truediv_overflow: "int_truediv (10 ^ 310) 12 = Inl OverflowError"
proof -
  have "fl (of_int (10 ^ 310) / of_int 12) = PosInf"
    by (rule nearest_overflow) simp_all
  then show ?thesis by (simp add: int_truediv_def)
qed

lemma fl_2: "fl 2 = Finite 2"
proof -
  have "nearest 2 = 2" by code_simp
  then show ?thesis by (rule fl_Finite_eval) simp_all
qed

lemma fl_32: "fl 32 = Finite 32"
proof -
  have "nearest 32 = 32" by code_simp
  then show ?thesis by (rule fl_Finite_eval) simp_all
qed

lemma fl_132: "fl 132 = Finite 132"
proof -
  have "nearest 132 = 132" by code_simp
  then show ?thesis by (rule fl_Finite_eval) simp_all
qed

text \<open>
  A request on which all three terms are positive and the clamp cuts the sum:
  \<open>30 + 2 + 100 = 132\<close>.
\<close>

lemma raw_score_50_24_300:
  "raw_score \<lparr>temperature_c = Finite 50, gas_ppm = 24, aqi = 300\<rparr> = Inr (Finite 132)"
  by (simp add: eval_defs fl_0 fl_25 fl_30 fl_temp_50 fl_2 fl_32 fl_100 fl_132)

lemma assess_risk_50_24_300:
  "assess_risk \<lparr>temperature_c = Finite 50, gas_ppm = 24, aqi = 300\<rparr>
     = Inr \<lparr>score = Finite 100, level = ''High risk'',
           tips = [''Evacuate non-essential personnel'',
                   ''Engage ventilation and gas suppression systems'',
                   ''Activate incident command protocol'']\<rparr>"
  by (simp add: assess_risk_Inr [OF raw_score_50_24_300] eval_defs fl_100)

text \<open>The only exception of the scorer is the overflow of a true division.\<close>

lemma int_truediv_Inl: "int_truediv a b = Inl e \<Longrightarrow> b \<noteq> 0 \<Longrightarrow> e = OverflowError"
  by (cases "fl (of_int a / of_int b)") (auto simp: int_truediv_def)

lemma raw_score_Inl: "raw_score p = Inl e \<Longrightarrow> e = OverflowError"
  by (auto simp: raw_score_def Let_def split: sum.splits dest: int_truediv_Inl)

lemma assess_risk_Inl: "assess_risk p = Inl e \<Longrightarrow> e = OverflowError"
proof (cases "raw_score p")
  case (Inl e')
  moreover assume "assess_risk p = Inl e"
  ultimately show ?thesis using raw_score_Inl [of p e'] by (simp add: assess_risk_def)
next
  case (Inr s)
  assume "assess_risk p = Inl e"
  with assess_risk_Inr [OF Inr] show ?thesis by simp
qed

lemma raw_score_in_range:
  assumes "\<bar>gas_ppm p\<bar> < 12 * (2 ^ 1024 - 2 ^ 970)" and "\<bar>aqi p\<bar> < 3 * (2 ^ 1024 - 2 ^ 970)"
  shows "\<exists>s. raw_score p = Inr s"
  by (simp add: raw_score_def Let_def int_truediv_12 [OF assms(1)] int_truediv_3 [OF assms(2)])

text \<open>
  Claim C1. For every request with \<open>gas_ppm \<ge> 0\<close> and \<open>aqi \<ge> 0\<close>: when the quotients
  \<open>gas_ppm / 12\<close> and \<open>aqi / 3\<close> fit a float, \<open>assess_risk\<close> returns a response; the score of
  every response it returns is the sum \<open>max(0, temperature_c - 25) * 1.2 + gas_ppm / 12 + aqi / 3\<close>
  clamped to \<open>[0, 100]\<close> and rounded to one decimal, lies in \<open>[0, 100]\<close> and is the float
  nearest to a decimal \<open>k / 10\<close>; and the only exception it can raise is the
  \<open>OverflowError\<close> of a quotient that does not fit, never the \<open>ValidationError\<close> of a score
  outside \<open>[0, 100]\<close>.
\<close>

theorem assess_score_formula:
  assumes "0 \<le> gas_ppm p" and "0 \<le> aqi p"
  shows "(gas_ppm p < 12 * (2 ^ 1024 - 2 ^ 970) \<and> aqi p < 3 * (2 ^ 1024 - 2 ^ 970)
        \<longrightarrow> (\<exists>r. assess_risk p = Inr r))
    \<and> (\<forall>r. assess_risk p = Inr r \<longrightarrow>
          score r = spec_score (temperature_c p) (gas_ppm p) (aqi p)
          \<and> (\<exists>y. score r = Finite y \<and> 0 \<le> y \<and> y \<le> 100)
          \<and> (\<exists>k. 0 \<le> k \<and> k \<le> 1000 \<and> score r = fl (of_int k / 10)))
    \<and> (\<forall>e. assess_risk p = Inl e \<longrightarrow> e = OverflowError)"
proof (intro conjI impI allI)
  assume "gas_ppm p < 12 * (2 ^ 1024 - 2 ^ 970) \<and> aqi p < 3 * (2 ^ 1024 - 2 ^ 970)"
  with assms have "\<bar>gas_ppm p\<bar> < 12 * (2 ^ 1024 - 2 ^ 970)" "\<bar>aqi p\<bar> < 3 * (2 ^ 1024 - 2 ^ 970)"
    by simp_all
  from raw_score_in_range [OF this] obtain s where "raw_score p = Inr s" ..
  from assess_risk_Inr [OF this] show "\<exists>r. assess_risk p = Inr r" by blast
next
  fix r assume a: "assess_risk p = Inr r"
  from assess_risk_Inr_raw [OF a] obtain s where s: "raw_score p = Inr s" ..
  from assess_risk_Inr [OF s] a have r: "score r = py_round1 (clamp_score s)" by auto
  have "clamp_score s = spec_clamp (spec_sum (temperature_c p) (gas_ppm p) (aqi p))"
    using raw_score_spec [OF s] by (simp add: clamp_score_spec)
  then show "score r = spec_score (temperature_c p) (gas_ppm p) (aqi p)"
    by (simp add: r spec_score_def)
  obtain c where c: "clamp_score s = Finite c" "0 \<le> c" "c \<le> 100"
    using clamp_score_range [of s] by blast
  from py_round1_0_100 [OF c(2,3)] obtain k y where
    "py_round1 (Finite c) = fl (of_int k / 10)" "0 \<le> k" "k \<le> 1000"
    "py_round1 (Finite c) = Finite y" "0 \<le> y" "y \<le> 100" by blast
  then show "\<exists>y. score r = Finite y \<and> 0 \<le> y \<and> y \<le> 100"
    and "\<exists>k. 0 \<le> k \<and> k \<le> 1000 \<and> score r = fl (of_int k / 10)"
    unfolding r c(1) by blast+
next
  fix e assume "assess_risk p = Inl e"
  then show "e = OverflowError" by (rule assess_risk_Inl)
qed

theorem assess_score_formula_witness:
  "(\<exists>r. assess_risk \<lparr>temperature_c = Finite 50, gas_ppm = 24, aqi = 300\<rparr> = Inr r)
    \<and> Finite 100 = spec_score (Finite 50) 24 300"
proof -
  let ?p = "\<lparr>temperature_c = Finite 50, gas_ppm = 24, aqi = 300\<rparr>"
  have "0 \<le> gas_ppm ?p" and "0 \<le> aqi ?p" by simp_all
  note w = assess_score_formula [OF this]
  have "gas_ppm ?p < 12 * (2 ^ 1024 - 2 ^ 970) \<and> aqi ?p < 3 * (2 ^ 1024 - 2 ^ 970)" by simp
  with w [THEN conjunct1] have a: "\<exists>r. assess_risk ?p = Inr r" by (rule mp)
  from w [THEN conjunct2, THEN conjunct1, THEN spec, THEN mp, OF assess_risk_50_24_300, THEN conjunct1]
  have b: "Finite 100 = spec_score (Finite 50) 24 300"
    by (simp only: InsightRequest.select_convs InsightResponse.select_convs)
  from a b show ?thesis by (rule conjI)
qed

text \<open>
  Claim C2. The level is the first match of the chain: High risk when the pre-round score is
  at least 70 or \<open>gas_ppm > 800\<close> or \<open>aqi > 150\<close>, else Elevated when it is at least 45 or
  \<open>gas_ppm > 600\<close> or \<open>aqi > 100\<close>, else Normal; the tips are the fixed list of the level.
  The pre-round score may be read before or after the clamp: the two comparisons agree.
\<close>

theorem assess_level_chain:
  assumes "assess_risk p = Inr r"
  shows "\<exists>s. raw_score p = Inr s
    \<and> (float_ge (clamp_score s) (Finite 70) \<longleftrightarrow> float_ge s (Finite 70))
    \<and> (float_ge (clamp_score s) (Finite 45) \<longleftrightarrow> float_ge s (Finite 45))
    \<and> (if float_ge s (Finite 70) \<or> 800 < gas_ppm p \<or> 150 < aqi p
        then level r = ''High risk''
          \<and> tips r = [''Evacuate non-essential personnel'',
                      ''Engage ventilation and gas suppression systems'',
                      ''Activate incident command protocol'']
        else if float_ge s (Finite 45) \<or> 600 < gas_ppm p \<or> 100 < aqi p
        then level r = ''Elevated''
          \<and> tips r = [''Increase monitoring frequency'',
                      ''Prepare PPE and standby team'',
                      ''Verify sensor calibration'']
        else level r = ''Normal''
          \<and> tips r = [''Continue routine monitoring'', ''Maintain clear egress routes''])"
proof -
  from assess_risk_Inr_raw [OF assms] obtain s where s: "raw_score p = Inr s" ..
  have n: "s \<noteq> NaN" using raw_score_spec [OF s] by simp
  from assess_risk_Inr [OF s] assms
  have r: "level r = fst (level_chain s (gas_ppm p) (aqi p))"
    "tips r = snd (level_chain s (gas_ppm p) (aqi p))"
    by (auto simp: level_chain_clamp [OF n])
  show ?thesis
    using s clamp_ge_70 [OF n] clamp_ge_45 [OF n]
    by (simp add: r level_chain_def high_risk_tips_def elevated_tips_def normal_tips_def)
qed

theorem assess_level_chain_witness:
  "\<exists>s. raw_score \<lparr>temperature_c = Finite 25, gas_ppm = 0, aqi = 500\<rparr> = Inr s
    \<and> (float_ge (clamp_score s) (Finite 70) \<longleftrightarrow> float_ge s (Finite 70))"
proof -
  from assess_level_chain [OF assess_risk_25_0_500] obtain s where
    "raw_score \<lparr>temperature_c = Finite 25, gas_ppm = 0, aqi = 500\<rparr> = Inr s"
    "float_ge (clamp_score s) (Finite 70) \<longleftrightarrow> float_ge s (Finite 70)"
    by blast
  then show ?thesis by blast
qed

text \<open>
  Claim C5. For every request with \<open>gas_ppm \<ge> 0\<close> and \<open>aqi \<ge> 0\<close>, the thresholds 70 and 45
  give the same answer on the clamped score as on the unclamped sum, so the level chain
  assigns the same level and tips on either.
\<close>

theorem clamp_keeps_level:
  assumes "0 \<le> gas_ppm p" and "0 \<le> aqi p" and "raw_score p = Inr s"
  shows "level_chain (clamp_score s) (gas_ppm p) (aqi p) = level_chain s (gas_ppm p) (aqi p)
    \<and> (float_ge (clamp_score s) (Finite 70) \<longleftrightarrow> float_ge s (Finite 70))
    \<and> (float_ge (clamp_score s) (Finite 45) \<longleftrightarrow> float_ge s (Finite 45))"
proof -
  have n: "s \<noteq> NaN" using raw_score_spec [OF assms(3)] by simp
  show ?thesis using level_chain_clamp [OF n] clamp_ge_70 [OF n] clamp_ge_45 [OF n] by simp
qed

theorem clamp_keeps_level_witness:
  "level_chain (clamp_score (Finite (5864062014805333 / 35184372088832))) 0 500
     = level_chain (Finite (5864062014805333 / 35184372088832)) 0 500"
proof -
  let ?p = "\<lparr>temperature_c = Finite 25, gas_ppm = 0, aqi = 500\<rparr>"
  have "0 \<le> gas_ppm ?p" and "0 \<le> aqi ?p" by simp_all
  from clamp_keeps_level [OF this raw_score_25_0_500, THEN conjunct1] show ?thesis
    by (simp only: InsightRequest.select_convs)
qed

text \<open>
  Claim C7. The three sample assessments: \<open>(25, 0, 0)\<close> gives score 0.0, Normal and two
  tips; \<open>(25, 0, 500)\<close> gives the clamped score 100.0 and High risk; \<open>(50, 0, 0)\<close> gives
  score 30.0 and Normal.
\<close>

theorem assess_examples:
  "(\<exists>r. assess_risk \<lparr>temperature_c = Finite 25, gas_ppm = 0, aqi = 0\<rparr> = Inr r
       \<and> score r = Finite 0 \<and> level r = ''Normal'' \<and> length (tips r) = 2)
   \<and> (\<exists>r. assess_risk \<lparr>temperature_c = Finite 25, gas_ppm = 0, aqi = 500\<rparr> = Inr r
       \<and> score r = Finite 100 \<and> level r = ''High risk'')
   \<and> (\<exists>r. assess_risk \<lparr>temperature_c = Finite 50, gas_ppm = 0, aqi = 0\<rparr> = Inr r
       \<and> score r = Finite 30 \<and> level r = ''Normal'')"
  by (simp add: assess_risk_25_0_0 assess_risk_25_0_500 assess_risk_50_0_0)

text \<open>
  Claim C10, as stated, fails: true division of an int too large for a float raises
  \<open>OverflowError\<close>, and \<open>InsightRequest\<close> accepts any int.
\<close>

theorem assess_overflow_counterexample:
  "assess_risk \<lparr>temperature_c = Finite 25, gas_ppm = 10 ^ 310, aqi = 0\<rparr> = Inl OverflowError"
  by (simp only: assess_risk_def raw_score_def Let_def InsightRequest.select_convs
      int_truediv_overflow sum.case)

text \<open>
  Claim C10, amended. For every request whose quotients \<open>gas_ppm / 12\<close> and \<open>aqi / 3\<close> stay
  below the overflow threshold \<open>2\<^sup>1\<^sup>0\<^sup>2\<^sup>4 - 2\<^sup>9\<^sup>7\<^sup>0\<close> of binary64 in magnitude, negative
  readings included, \<open>assess_risk\<close> raises nothing and returns a score in \<open>[0, 100]\<close>.
\<close>

theorem assess_total_in_range:
  assumes "\<bar>gas_ppm p\<bar> < 12 * (2 ^ 1024 - 2 ^ 970)" and "\<bar>aqi p\<bar> < 3 * (2 ^ 1024 - 2 ^ 970)"
  shows "\<exists>r y. assess_risk p = Inr r \<and> score r = Finite y \<and> 0 \<le> y \<and> y \<le> 100"
proof -
  have "\<exists>s. raw_score p = Inr s"
    by (simp add: raw_score_def Let_def int_truediv_12 [OF assms(1)] int_truediv_3 [OF assms(2)])
  then obtain s where s: "raw_score p = Inr s" ..
  obtain c where c: "clamp_score s = Finite c" "0 \<le> c" "c \<le> 100"
    using clamp_score_range [of s] by blast
  from py_round1_0_100 [OF c(2,3)] obtain y where
    "py_round1 (clamp_score s) = Finite y" "0 \<le> y" "y \<le> 100" unfolding c(1) by blast
  then show ?thesis by (simp add: assess_risk_Inr [OF s])
qed

theorem assess_total_in_range_witness:
  "\<exists>r y. assess_risk \<lparr>temperature_c = NaN, gas_ppm = - 5, aqi = - 7\<rparr> = Inr r
     \<and> score r = Finite y \<and> 0 \<le> y \<and> y \<le> 100"
  using assess_total_in_range [of "\<lparr>temperature_c = NaN, gas_ppm = - 5, aqi = - 7\<rparr>"]
  by simp

section \<open>Properties of the event store adapter\<close>












lemma mset_insert_desc: "mset (insert_desc x ys) = add_mset x (mset ys)"
  by (induction ys) auto

lemma mset_foldr_insert_desc: "mset (foldr insert_desc xs []) = mset xs"
  by (induction xs) (auto simp: mset_insert_desc)






text \<open>The items are the conversions of the documents, one by one and in order.\<close>

lemma build_items_Inr:
  "build_items lib ds = Inr items \<Longrightarrow>
     list_all2 (\<lambda>d e. new_SensorEvent lib (prepare_doc lib d) = Inr e) ds items"
  by (induction ds arbitrary: items) (auto split: sum.splits)

lemma prepare_doc_no_id: "''_id'' \<notin> dom (prepare_doc lib d)"
  by (simp add: prepare_doc_def coerce_timestamp_def pop_id_def split: option.splits pyval.splits)

lemma SensorEvent_fields_dom:
  "dom (SensorEvent_fields e)
     = {''timestamp'', ''temperature_c'', ''gas_ppm'', ''aqi'', ''location'', ''notes'', ''source''}"
  by (simp add: SensorEvent_fields_def insert_commute)

lemma get_recent_readings_InrE:
  assumes "get_recent_readings lib get_documents clock limit = Inr items"
  obtains docs kds where
    "get_documents ''sensorevent'' (case limit of None \<Rightarrow> 20 | Some l \<Rightarrow> l) = Inr docs"
    "py_sorted_desc (zip (keys_of clock docs) docs) = Inr kds"
    "build_items lib (map snd kds) = Inr items"
  using assms
  by (auto simp: get_recent_readings_def default_limit_def split: sum.splits cong: option.case_cong)

lemmas store_eval =
  get_recent_readings_def default_limit_def keys_of_def key_fn_def dict_get_def
  py_sorted_desc_def prepare_doc_def coerce_timestamp_def pop_id_def new_SensorEvent_def
  required_def required_int_ge0_def validate_datetime_def validate_float_def validate_int_def
  validate_str_def optional_Location_def optional_str_def str_with_default_def strict_lib_def
  enumerate_eq_zip

lemma build_item_old: "new_SensorEvent strict_lib (prepare_doc strict_lib doc_old) = Inr event_old"
  by (simp add: store_eval doc_old_def event_old_def)

lemma build_item_new: "new_SensorEvent strict_lib (prepare_doc strict_lib doc_new) = Inr event_new"
  by (simp add: store_eval doc_new_def event_new_def)

lemma build_item_garbled:
  "new_SensorEvent strict_lib (prepare_doc strict_lib doc_garbled) = Inl ValidationError"
  by (simp add: store_eval doc_garbled_def)

lemma key_old: "key_fn now doc_old = VDatetime \<lparr>aware = False, micros = 1500\<rparr>"
  by (simp add: key_fn_def dict_get_def doc_old_def)

lemma key_new: "key_fn now doc_new = VDatetime \<lparr>aware = False, micros = 2500\<rparr>"
  by (simp add: key_fn_def dict_get_def doc_new_def)

lemma key_garbled: "key_fn now doc_garbled = VDatetime \<lparr>aware = False, micros = 3500\<rparr>"
  by (simp add: key_fn_def dict_get_def doc_garbled_def)

lemma keys_two: "keys_of clock [doc_old, doc_new]
    = [VDatetime \<lparr>aware = False, micros = 1500\<rparr>, VDatetime \<lparr>aware = False, micros = 2500\<rparr>]"
  by (simp add: keys_of_def enumerate_eq_zip key_old key_new upt_rec)

lemma keys_three: "keys_of clock [doc_old, doc_garbled, doc_new]
    = [VDatetime \<lparr>aware = False, micros = 1500\<rparr>, VDatetime \<lparr>aware = False, micros = 3500\<rparr>,
       VDatetime \<lparr>aware = False, micros = 2500\<rparr>]"
  by (simp add: keys_of_def enumerate_eq_zip key_old key_new key_garbled upt_rec)

lemma recent_two:
  "get_recent_readings strict_lib (\<lambda>c l. Inr [doc_old, doc_new]) clock None
     = Inr [event_new, event_old]"
  by (simp add: get_recent_readings_def keys_two py_sorted_desc_def build_item_old build_item_new)

lemma recent_three:
  "get_recent_readings strict_lib (\<lambda>c l. Inr [doc_old, doc_garbled, doc_new]) clock None
     = Inl (HTTPException 500)"
  by (simp add: get_recent_readings_def keys_three py_sorted_desc_def build_item_old build_item_new
      build_item_garbled)


text \<open>Validation raises nothing but \<open>ValidationError\<close>.\<close>

lemma required_Inl: "required validate v = Inl e \<Longrightarrow> e = ValidationError"
  by (auto simp: required_def split: option.splits)

lemma required_int_ge0_Inl: "required_int_ge0 lib v = Inl e \<Longrightarrow> e = ValidationError"
  by (auto simp: required_int_ge0_def dest: required_Inl split: sum.splits if_splits)

text \<open>
  \<^verbatim>\<open>SensorEvent\<close> declares \<^verbatim>\<open>ge=0\<close> on both readings: whatever value converts to a negative
  int is refused, and the ingest route answers before the store is called.
\<close>

lemma new_SensorEvent_rejects_negative:
  assumes "(\<exists>v g. d ''gas_ppm'' = Some v \<and> validate_int lib v = Some g \<and> g < 0)
    \<or> (\<exists>v a. d ''aqi'' = Some v \<and> validate_int lib v = Some a \<and> a < 0)"
  shows "new_SensorEvent lib d = Inl ValidationError"
proof -
  have "required_int_ge0 lib (d ''gas_ppm'') = Inl ValidationError
      \<or> required_int_ge0 lib (d ''aqi'') = Inl ValidationError"
    using assms by (auto simp: required_int_ge0_def required_def)
  then show ?thesis
    unfolding new_SensorEvent_def
    by (auto split: sum.splits dest: required_Inl required_int_ge0_Inl)
qed

lemma post_ingest_rejects_negative:
  assumes "(\<exists>v g. body ''gas_ppm'' = Some v \<and> validate_int lib v = Some g \<and> g < 0)
    \<or> (\<exists>v a. body ''aqi'' = Some v \<and> validate_int lib v = Some a \<and> a < 0)"
  shows "post_ingest lib create_document st body = (Inl ValidationError, st)"
  using new_SensorEvent_rejects_negative [OF assms] by (simp add: post_ingest_def)

lemma new_InsightRequest_typed:
  assumes "d ''temperature_c'' = Some (VFloat t)" "d ''gas_ppm'' = Some (VInt g)"
    "d ''aqi'' = Some (VInt a)"
  shows "new_InsightRequest lib d = Inr \<lparr>temperature_c = t, gas_ppm = g, aqi = a\<rparr>"
  by (simp add: new_InsightRequest_def required_def validate_float_def validate_int_def assms)

lemma fl_minus_1: "fl (- 1) = Finite (- 1)"
proof -
  have "nearest (- 1) = - 1" by code_simp
  then show ?thesis by (rule fl_Finite_eval) simp_all
qed

lemma assess_risk_negative_gas:
  "assess_risk \<lparr>temperature_c = Finite 25, gas_ppm = - 12, aqi = 0\<rparr>
     = Inr \<lparr>score = Finite 0, level = ''Normal'',
           tips = [''Continue routine monitoring'', ''Maintain clear egress routes'']\<rparr>"
proof -
  have "raw_score \<lparr>temperature_c = Finite 25, gas_ppm = - 12, aqi = 0\<rparr> = Inr (Finite (- 1))"
    by (simp add: eval_defs fl_0 fl_minus_1)
  from assess_risk_Inr [OF this] show ?thesis
    by (simp add: eval_defs fl_0)
qed

text \<open>
  A hot sensor with a negative gas reading: \<open>(60 - 25) * 1.2 = 42\<close>, and \<open>- 500 / 12\<close>
  takes all of it but a third of a point.
\<close>

lemma fl_35: "fl 35 = Finite 35"
proof -
  have "nearest 35 = 35" by code_simp
  then show ?thesis by (rule fl_Finite_eval) simp_all
qed

lemma temperature_term_60:
  "float_mul (py_max (Finite 0) (float_sub (Finite 60) (Finite 25))) lit_1_2 = Finite 42"
proof -
  have a: "float_sub (Finite 60) (Finite 25) = Finite 35"
    by (simp add: float_sub_def fl_35)
  have b: "py_max (Finite 0) (Finite 35) = Finite 35"
    by (simp add: py_max_def float_gt_def)
  have "nearest (35 * (5404319552844595 / 4503599627370496)) = 42" by code_simp
  then have c: "fl (35 * (5404319552844595 / 4503599627370496)) = Finite 42"
    by (rule fl_Finite_eval) simp_all
  show ?thesis by (simp only: a b lit_1_2_value float_mul.simps c)
qed

lemma gas_term_minus_500:
  "int_truediv (- 500) 12 = Inr (Finite (- (5864062014805333 / 140737488355328)))"
proof -
  have "nearest (of_int (- 500) / of_int 12) = - (5864062014805333 / 140737488355328)"
    by code_simp
  then have f: "fl (of_int (- 500) / of_int 12) = Finite (- (5864062014805333 / 140737488355328))"
    by (rule fl_Finite_eval) simp_all
  show ?thesis unfolding int_truediv_def f by simp
qed

lemma aqi_term_0: "int_truediv 0 3 = Inr (Finite 0)"
  by (simp add: int_truediv_def fl_0)

lemma sum_60_minus_500:
  "float_add (Finite 0) (Finite 42) = Finite 42"
  "float_add (Finite 42) (Finite (- (5864062014805333 / 140737488355328)))
     = Finite (46912496118443 / 140737488355328)"
  "float_add (Finite (46912496118443 / 140737488355328)) (Finite 0)
     = Finite (46912496118443 / 140737488355328)"
proof -
  have "nearest (0 + 42) = 42" by code_simp
  then have "fl (0 + 42) = Finite 42" by (rule fl_Finite_eval) simp_all
  then show "float_add (Finite 0) (Finite 42) = Finite 42" by (simp only: float_add.simps)
  have "nearest (42 + - (5864062014805333 / 140737488355328)) = 46912496118443 / 140737488355328"
    by code_simp
  then have "fl (42 + - (5864062014805333 / 140737488355328))
      = Finite (46912496118443 / 140737488355328)"
    by (rule fl_Finite_eval) simp_all
  then show "float_add (Finite 42) (Finite (- (5864062014805333 / 140737488355328)))
     = Finite (46912496118443 / 140737488355328)" by (simp only: float_add.simps)
  have "nearest (46912496118443 / 140737488355328 + 0) = 46912496118443 / 140737488355328"
    by code_simp
  then have "fl (46912496118443 / 140737488355328 + 0) = Finite (46912496118443 / 140737488355328)"
    by (rule fl_Finite_eval) simp_all
  then show "float_add (Finite (46912496118443 / 140737488355328)) (Finite 0)
     = Finite (46912496118443 / 140737488355328)" by (simp only: float_add.simps)
qed

lemma raw_score_60_minus_500:
  "raw_score \<lparr>temperature_c = Finite 60, gas_ppm = - 500, aqi = 0\<rparr>
     = Inr (Finite (46912496118443 / 140737488355328))"
  by (simp only: raw_score_def Let_def InsightRequest.select_convs temperature_term_60
      gas_term_minus_500 aqi_term_0 sum_60_minus_500 sum.case)

lemma round_60_minus_500:
  "py_round1 (Finite (46912496118443 / 140737488355328))
     = Finite (5404319552844595 / 18014398509481984)"
proof -
  have r: "round_half_even (46912496118443 / 140737488355328 * 10) = 3" by code_simp
  have "nearest (of_int 3 / 10) = 5404319552844595 / 18014398509481984" by code_simp
  then have "fl (of_int 3 / 10) = Finite (5404319552844595 / 18014398509481984)"
    by (rule fl_Finite_eval) simp_all
  then show ?thesis by (simp only: py_round1.simps r)
qed

lemma assess_risk_60_minus_500:
  "assess_risk \<lparr>temperature_c = Finite 60, gas_ppm = - 500, aqi = 0\<rparr>
     = Inr \<lparr>score = Finite (5404319552844595 / 18014398509481984), level = ''Normal'',
           tips = [''Continue routine monitoring'', ''Maintain clear egress routes'']\<rparr>"
proof -
  have c: "clamp_score (Finite (46912496118443 / 140737488355328))
      = Finite (46912496118443 / 140737488355328)"
    by (simp add: clamp_score_def py_max_def py_min_def float_gt_def)
  have l: "level_chain (Finite (46912496118443 / 140737488355328)) (- 500) 0
      = (''Normal'', normal_tips)"
    by (simp add: level_chain_def float_ge_def float_le_def)
  show ?thesis
    by (simp only: assess_risk_Inr [OF raw_score_60_minus_500] c l round_60_minus_500
        InsightRequest.select_convs fst_conv snd_conv normal_tips_def)
qed

text \<open>
  Claim C3 fails on the code, on the assess operation. \<^verbatim>\<open>SensorEvent\<close> declares \<^verbatim>\<open>ge=0\<close> on
  \<open>gas_ppm\<close> and \<open>aqi\<close>, and the ingest route refuses a body with a gas reading of \<open>- 500\<close>
  with \<open>ValidationError\<close>, the store untouched. \<^verbatim>\<open>InsightRequest\<close> declares the same two
  fields without the bound, and the assess route scores the same readings: at 60 degrees
  the negative reading takes the score from 42 down to 0.3, Normal; at 25 degrees a gas
  reading of \<open>- 12\<close> is scored 0.0, Normal.
\<close>

theorem negative_reading_scored_by_assess:
  "post_ingest strict_lib (\<lambda>st c e. (Inr ''id'' :: unit + string, e # st)) []
      [''timestamp'' \<mapsto> VDatetime \<lparr>aware = False, micros = 1000\<rparr>,
       ''temperature_c'' \<mapsto> VFloat (Finite 60), ''gas_ppm'' \<mapsto> VInt (- 500), ''aqi'' \<mapsto> VInt 0]
     = (Inl ValidationError, [])
   \<and> post_assess strict_lib
        [''temperature_c'' \<mapsto> VFloat (Finite 60), ''gas_ppm'' \<mapsto> VInt (- 500), ''aqi'' \<mapsto> VInt 0]
     = Inr \<lparr>score = Finite (5404319552844595 / 18014398509481984), level = ''Normal'',
           tips = [''Continue routine monitoring'', ''Maintain clear egress routes'']\<rparr>
   \<and> post_assess strict_lib
        [''temperature_c'' \<mapsto> VFloat (Finite 25), ''gas_ppm'' \<mapsto> VInt (- 12), ''aqi'' \<mapsto> VInt 0]
     = Inr \<lparr>score = Finite 0, level = ''Normal'',
           tips = [''Continue routine monitoring'', ''Maintain clear egress routes'']\<rparr>"
proof (intro conjI)
  show "post_ingest strict_lib (\<lambda>st c e. (Inr ''id'' :: unit + string, e # st)) []
      [''timestamp'' \<mapsto> VDatetime \<lparr>aware = False, micros = 1000\<rparr>,
       ''temperature_c'' \<mapsto> VFloat (Finite 60), ''gas_ppm'' \<mapsto> VInt (- 500), ''aqi'' \<mapsto> VInt 0]
     = (Inl ValidationError, [])"
    by (rule post_ingest_rejects_negative) (simp add: validate_int_def)
next
  have "new_InsightRequest strict_lib
      [''temperature_c'' \<mapsto> VFloat (Finite 60), ''gas_ppm'' \<mapsto> VInt (- 500), ''aqi'' \<mapsto> VInt 0]
    = Inr \<lparr>temperature_c = Finite 60, gas_ppm = - 500, aqi = 0\<rparr>"
    by (rule new_InsightRequest_typed) simp_all
  then show "post_assess strict_lib
        [''temperature_c'' \<mapsto> VFloat (Finite 60), ''gas_ppm'' \<mapsto> VInt (- 500), ''aqi'' \<mapsto> VInt 0]
     = Inr \<lparr>score = Finite (5404319552844595 / 18014398509481984), level = ''Normal'',
           tips = [''Continue routine monitoring'', ''Maintain clear egress routes'']\<rparr>"
    by (simp only: post_assess_def sum.case assess_risk_60_minus_500)
next
  have "new_InsightRequest strict_lib
      [''temperature_c'' \<mapsto> VFloat (Finite 25), ''gas_ppm'' \<mapsto> VInt (- 12), ''aqi'' \<mapsto> VInt 0]
    = Inr \<lparr>temperature_c = Finite 25, gas_ppm = - 12, aqi = 0\<rparr>"
    by (rule new_InsightRequest_typed) simp_all
  then show "post_assess strict_lib
        [''temperature_c'' \<mapsto> VFloat (Finite 25), ''gas_ppm'' \<mapsto> VInt (- 12), ''aqi'' \<mapsto> VInt 0]
     = Inr \<lparr>score = Finite 0, level = ''Normal'',
           tips = [''Continue routine monitoring'', ''Maintain clear egress routes'']\<rparr>"
    by (simp only: post_assess_def sum.case assess_risk_negative_gas)
qed

text \<open>
  Claim C4 fails on the code. With one stored timestamp that neither \<^verbatim>\<open>fromisoformat\<close> nor
  the model accepts, the string is left in the document, \<^verbatim>\<open>SensorEvent\<close> raises on it and
  the whole retrieval ends with status 500; without that record the same store answers
  with its two readings.
\<close>

theorem garbled_timestamp_fails_retrieval:
  "prepare_doc strict_lib doc_garbled ''timestamp'' = Some (VStr ''not-a-date'')
   \<and> get_recent_readings strict_lib (\<lambda>c l. Inr [doc_old, doc_garbled, doc_new] :: unit + document list)
        (\<lambda>i. 0) None = Inl (HTTPException 500)
   \<and> get_recent_readings strict_lib (\<lambda>c l. Inr [doc_old, doc_new] :: unit + document list)
        (\<lambda>i. 0) None = Inr [event_new, event_old]"
  by (simp add: recent_two recent_three)
    (simp add: prepare_doc_def coerce_timestamp_def pop_id_def doc_garbled_def strict_lib_def)



text \<open>The sort rearranges the fetched documents and drops none.\<close>

lemma py_sorted_desc_mset: "py_sorted_desc kxs = Inr r \<Longrightarrow> mset r = mset kxs"
  by (auto simp: py_sorted_desc_def mset_foldr_insert_desc split: if_splits)

lemma sorted_docs_are_fetched:
  assumes "py_sorted_desc (zip (keys_of clock docs) docs) = Inr kds"
  shows "mset (map snd kds) = mset docs"
proof -
  have "length (keys_of clock docs) = length docs" by (simp add: keys_of_def)
  then have "map snd (zip (keys_of clock docs) docs) = docs" by simp
  moreover have "mset (map snd kds) = mset (map snd (zip (keys_of clock docs) docs))"
    using py_sorted_desc_mset [OF assms] by (metis mset_map)
  ultimately show ?thesis by simp
qed

text \<open>Lines 90 to 96 touch two keys of a document, \<open>_id\<close> and \<open>timestamp\<close>.\<close>

lemma prepare_doc_other_keys:
  "k \<noteq> ''_id'' \<Longrightarrow> k \<noteq> ''timestamp'' \<Longrightarrow> prepare_doc lib d k = d k"
  by (simp add: prepare_doc_def coerce_timestamp_def pop_id_def split: option.splits pyval.splits)

text \<open>
  Claim C8. The retrieval returns one item for each fetched document, and every item is
  the \<^verbatim>\<open>SensorEvent\<close> built from a fetched document as lines 90 to 96 leave it: without
  its \<open>_id\<close>, and with every key other than \<open>_id\<close> and \<open>timestamp\<close> as it was stored. The
  fields of the item hold no \<open>_id\<close>.
\<close>

theorem recent_items_without_id:
  assumes "get_recent_readings lib get_documents clock limit = Inr items"
    and "get_documents ''sensorevent'' (case limit of None \<Rightarrow> 20 | Some l \<Rightarrow> l) = Inr docs"
  shows "length items = length docs
    \<and> (\<forall>item \<in> set items. \<exists>d. d \<in> set docs
          \<and> new_SensorEvent lib (prepare_doc lib d) = Inr item
          \<and> ''_id'' \<notin> dom (prepare_doc lib d)
          \<and> (\<forall>k. k \<noteq> ''_id'' \<longrightarrow> k \<noteq> ''timestamp'' \<longrightarrow> prepare_doc lib d k = d k)
          \<and> ''_id'' \<notin> dom (SensorEvent_fields item))"
proof -
  from assms(1) obtain docs' kds where
    "get_documents ''sensorevent'' (case limit of None \<Rightarrow> 20 | Some l \<Rightarrow> l) = Inr docs'"
    "py_sorted_desc (zip (keys_of clock docs') docs') = Inr kds"
    and b: "build_items lib (map snd kds) = Inr items"
    by (rule get_recent_readings_InrE)
  with assms(2) have s: "py_sorted_desc (zip (keys_of clock docs) docs) = Inr kds" by simp
  have m: "mset (map snd kds) = mset docs" using s by (rule sorted_docs_are_fetched)
  have l2: "list_all2 (\<lambda>d e. new_SensorEvent lib (prepare_doc lib d) = Inr e) (map snd kds) items"
    using b by (rule build_items_Inr)
  have "length items = length (map snd kds)" using list_all2_lengthD [OF l2] by simp
  also have "\<dots> = length docs" using m by (metis size_mset)
  finally have len: "length items = length docs" .
  have each: "\<exists>d. d \<in> set docs
          \<and> new_SensorEvent lib (prepare_doc lib d) = Inr item
          \<and> ''_id'' \<notin> dom (prepare_doc lib d)
          \<and> (\<forall>k. k \<noteq> ''_id'' \<longrightarrow> k \<noteq> ''timestamp'' \<longrightarrow> prepare_doc lib d k = d k)
          \<and> ''_id'' \<notin> dom (SensorEvent_fields item)" if "item \<in> set items" for item
  proof -
    from that obtain i where i: "i < length items" "items ! i = item"
      unfolding in_set_conv_nth by blast
    have li: "i < length (map snd kds)" using list_all2_lengthD [OF l2] i(1) by simp
    have "new_SensorEvent lib (prepare_doc lib (map snd kds ! i)) = Inr (items ! i)"
      using list_all2_nthD [OF l2 li] .
    moreover have "map snd kds ! i \<in> set (map snd kds)" using li by (rule nth_mem)
    ultimately obtain d where d: "d \<in> set (map snd kds)"
      "new_SensorEvent lib (prepare_doc lib d) = Inr item"
      unfolding i(2) by blast
    have "set (map snd kds) = set docs" using m by (rule mset_eq_setD)
    with d(1) have "d \<in> set docs" by simp
    moreover have "''_id'' \<notin> dom (prepare_doc lib d)" by (rule prepare_doc_no_id)
    moreover have "\<forall>k. k \<noteq> ''_id'' \<longrightarrow> k \<noteq> ''timestamp'' \<longrightarrow> prepare_doc lib d k = d k"
      by (simp add: prepare_doc_other_keys)
    moreover have "''_id'' \<notin> dom (SensorEvent_fields item)" by (simp add: SensorEvent_fields_dom)
    ultimately show ?thesis using d(2) by blast
  qed
  from len each show ?thesis by blast
qed

theorem recent_items_without_id_witness:
  "doc_old ''_id'' = Some (VObjectId ''a1'')
   \<and> (\<exists>d. (d = doc_old \<or> d = doc_new)
        \<and> new_SensorEvent strict_lib (prepare_doc strict_lib d) = Inr event_old
        \<and> ''_id'' \<notin> dom (prepare_doc strict_lib d))"
proof -
  let ?gd = "\<lambda>c l. Inr [doc_old, doc_new] :: unit + document list"
  have 1: "get_recent_readings strict_lib ?gd (\<lambda>i. 0) None = Inr [event_new, event_old]"
    by (rule recent_two)
  have 2: "?gd ''sensorevent'' (case None of None \<Rightarrow> 20 | Some l \<Rightarrow> l) = Inr [doc_old, doc_new]"
    by simp
  from recent_items_without_id [OF 1 2, THEN conjunct2]
  have "\<exists>d. d \<in> set [doc_old, doc_new]
      \<and> new_SensorEvent strict_lib (prepare_doc strict_lib d) = Inr event_old
      \<and> ''_id'' \<notin> dom (prepare_doc strict_lib d)"
    by auto
  then have "\<exists>d. (d = doc_old \<or> d = doc_new)
      \<and> new_SensorEvent strict_lib (prepare_doc strict_lib d) = Inr event_old
      \<and> ''_id'' \<notin> dom (prepare_doc strict_lib d)"
    by (simp only: set_simps insert_iff empty_iff simp_thms)
  moreover have "doc_old ''_id'' = Some (VObjectId ''a1'')" by (simp add: doc_old_def)
  ultimately show ?thesis by (rule conjI [rotated])
qed

end
